theory Spec2Isabelle
  imports Complex_Main "HOL-Library.Sublist" "HOL-Library.Multiset"
begin

section \<open>Python values and string helpers\<close>

text \<open>
  The envelope content, the incident and the JSON the backend answers with are Python
  dictionaries of arbitrary values. They are embedded as the datatype \<open>pyval\<close>; a
  dictionary is an association list read with \<open>map_of\<close> (\<open>dict.get\<close>). Strings are
  lists of characters, one \<open>char\<close> per code point below 256.
\<close>

datatype pyval =
    PNone
  | PBool bool
  | PInt int
  | PStr string
  | PList "pyval list"
  | PDict "(string \<times> pyval) list"

datatype error = AttributeError | KeyError | OverflowError

type_synonym pydict = "(string \<times> pyval) list"

text \<open>Python truth value of an object (\<open>bool(v)\<close>, \<open>not v\<close>, \<open>a or b\<close>).\<close>

fun truthy :: "pyval \<Rightarrow> bool" where
  "truthy PNone = False"
| "truthy (PBool b) = b"
| "truthy (PInt i) = (i \<noteq> 0)"
| "truthy (PStr s) = (s \<noteq> [])"
| "truthy (PList xs) = (xs \<noteq> [])"
| "truthy (PDict d) = (d \<noteq> [])"

definition py_or :: "pyval \<Rightarrow> pyval \<Rightarrow> pyval" where
  "py_or a b = (if truthy a then a else b)"

text \<open>\<open>d.get(k)\<close> and \<open>d.get(k, default)\<close>.\<close>

definition dict_get :: "pydict \<Rightarrow> string \<Rightarrow> pyval" where
  "dict_get d k = (case map_of d k of Some v \<Rightarrow> v | None \<Rightarrow> PNone)"

definition dict_get_default :: "pydict \<Rightarrow> string \<Rightarrow> pyval \<Rightarrow> pyval" where
  "dict_get_default d k dflt = (case map_of d k of Some v \<Rightarrow> v | None \<Rightarrow> dflt)"

text \<open>\<open>d[k] = v\<close>: an existing key keeps its position, a new key goes last.\<close>

fun dict_set :: "pydict \<Rightarrow> string \<Rightarrow> pyval \<Rightarrow> pydict" where
  "dict_set [] k v = [(k, v)]"
| "dict_set ((k', v') # d) k v = (if k' = k then (k, v) # d else (k', v') # dict_set d k v)"

text \<open>
  \<open>str.isspace\<close> on one character: the ASCII white space, the separators 28..31, and
  NEL (133) and NBSP (160) of Latin-1.
\<close>

definition py_isspace :: "char \<Rightarrow> bool" where
  "py_isspace c = (let n = (of_char c :: nat) in
     (9 \<le> n \<and> n \<le> 13) \<or> (28 \<le> n \<and> n \<le> 32) \<or> n = 133 \<or> n = 160)"

definition strip :: "string \<Rightarrow> string" where
  "strip s = rev (dropWhile py_isspace (rev (dropWhile py_isspace s)))"

text \<open>\<open>str.lower\<close>: A..Z, and the upper-case letters of Latin-1 (192..222 except 215).\<close>

definition lower_char :: "char \<Rightarrow> char" where
  "lower_char c = (let n = (of_char c :: nat) in
     if (65 \<le> n \<and> n \<le> 90) \<or> (192 \<le> n \<and> n \<le> 222 \<and> n \<noteq> 215)
     then char_of (n + 32) else c)"

definition lower :: "string \<Rightarrow> string" where
  "lower s = map lower_char s"

text \<open>\<open>s.startswith(p)\<close> and the substring test \<open>p in s\<close>.\<close>

definition startswith :: "string \<Rightarrow> string \<Rightarrow> bool" where
  "startswith s p = prefix p s"

definition str_in :: "string \<Rightarrow> string \<Rightarrow> bool" where
  "str_in p s = sublist p s"

text \<open>\<open>sep.join(parts)\<close>.\<close>

fun join :: "string \<Rightarrow> string list \<Rightarrow> string" where
  "join sep [] = []"
| "join sep [x] = x"
| "join sep (x # y # ys) = x @ sep @ join sep (y # ys)"

text \<open>
  \<open>xs[:n]\<close>: a negative bound counts from the end.
\<close>

definition py_take :: "int \<Rightarrow> 'a list \<Rightarrow> 'a list" where
  "py_take n xs = (if 0 \<le> n then take (nat n) xs else take (length xs - nat (- n)) xs)"

text \<open>\<open>xs[-n:]\<close> for a positive \<open>n\<close>: the last \<open>n\<close> elements, all of them when there are fewer.\<close>

definition py_last_n :: "nat \<Rightarrow> 'a list \<Rightarrow> 'a list" where
  "py_last_n n xs = drop (length xs - n) xs"

section \<open>What the code takes from outside\<close>

text \<open>
  The text-generation backend, the JSON parser, \<open>str()\<close> of a non-string object, the
  formatting of time stamps and the random generator are not code of the repository.
  They are parameters of the model, collected in one record:
  \<^item> \<open>generate n model prompt\<close> is what \<open>GenerativeModel(model).generate_content(prompt)\<close>
    does when it is the request number \<open>n\<close> of the process (counting from 0): it raises,
    with the text of the exception, or it answers;
  \<^item> \<open>json_loads s\<close> is \<open>json.loads(s)\<close>, \<open>None\<close> when it raises;
  \<^item> \<open>py_repr v\<close> is \<open>str(v)\<close> for integers, lists and dictionaries;
  \<^item> \<open>time_at n\<close> is what the clock reads when it is read for the \<open>n\<close>-th time
    (\<open>time.time()\<close>, \<open>datetime.now()\<close>, \<open>datetime.utcnow()\<close>);
  \<^item> \<open>float_add t n\<close> is the sum \<open>t + n\<close> of the float \<open>t\<close> and the integer \<open>n\<close> as
    Python computes it: \<open>None\<close> when \<open>n\<close> is beyond the range of floats, where the
    conversion raises \<open>OverflowError\<close>; else the sum rounded to a float, which may be
    infinite;
  \<^item> \<open>isoformat t\<close> is the ISO text of the time \<open>t\<close>;
  \<^item> \<open>rand_raw k\<close> is the raw value behind the \<open>k\<close>-th draw of the random generator.
  What the clock reads is a finite float, given as the real number it stands for.
\<close>

text \<open>
  A float that a sum of finite floats can be: finite, or an infinity.
\<close>

datatype pyfloat = NegInf | Fin real | PosInf

text \<open>The test \<open>t >= b\<close> of a clock reading against such a float.\<close>

fun reached :: "real \<Rightarrow> pyfloat \<Rightarrow> bool" where
  "reached t NegInf = True"
| "reached t (Fin b) = (b \<le> t)"
| "reached t PosInf = False"

text \<open>
  A response object, as the code reads it. \<open>resp_text\<close> is what reading the attribute
  \<open>text\<close> does: it raises, with the text of the exception (the accessor of the library
  raises \<open>ValueError\<close> on a response without a candidate or without a part), or it
  gives a value, \<open>None\<close> when the attribute is missing or holds \<open>None\<close>.
  \<open>resp_candidates\<close> is what reading the candidates does, where the code gets that
  far: an exception raised on the way (by the attribute, the parts of the first candidate
  or the text of a part), or \<open>None\<close> when there is no such attribute, or the candidates,
  each the list of its parts, each part its \<open>text\<close> (if it has one).
\<close>

record response =
  resp_text :: "string + string option"
  resp_candidates :: "string + string option list list option"

datatype outcome = Raises string | Answers response

record externals =
  generate :: "nat \<Rightarrow> string \<Rightarrow> string \<Rightarrow> outcome"
  time_at :: "nat \<Rightarrow> real"
  float_add :: "real \<Rightarrow> int \<Rightarrow> pyfloat option"
  json_loads :: "string \<Rightarrow> pyval option"
  py_repr :: "pyval \<Rightarrow> string"
  isoformat :: "real \<Rightarrow> string"
  rand_raw :: "nat \<Rightarrow> nat"

text \<open>\<open>str(v)\<close>, as an f-string field formats \<open>v\<close>.\<close>

definition py_str :: "externals \<Rightarrow> pyval \<Rightarrow> string" where
  "py_str ext v = (case v of
       PStr s \<Rightarrow> s
     | PNone \<Rightarrow> ''None''
     | PBool b \<Rightarrow> (if b then ''True'' else ''False'')
     | _ \<Rightarrow> py_repr ext v)"

text \<open>\<open>random.randint(lo, hi)\<close>, the \<open>k\<close>-th draw: a value between \<open>lo\<close> and \<open>hi\<close>, both included.\<close>

definition randint :: "externals \<Rightarrow> int \<Rightarrow> int \<Rightarrow> nat \<Rightarrow> int" where
  "randint ext lo hi k = lo + int (rand_raw ext k mod nat (hi - lo + 1))"

section \<open>relief\_tools.py\<close>

text \<open>
  A unit of the registry. Every entry of the registry carries all five keys, so the
  default of \<open>unit.get("base_eta", 6)\<close> is never taken and the fields are total.
\<close>

record runit =
  unit_id :: string
  unit_type :: string
  location :: string
  capabilities :: "string set"
  base_eta :: int

text \<open>\<open>dict(unit)\<close> with the key \<open>eta_minutes\<close> added.\<close>

record enriched = runit +
  eta_minutes :: int

record unit_state =
  status :: string
  incident_id :: pyval
  last_updated :: real

definition UNIT_REGISTRY :: "runit list" where
  "UNIT_REGISTRY =
    [\<lparr>unit_id = ''Fire-1'', unit_type = ''fire'', location = ''Station Alpha'',
       capabilities = {''structure'', ''industrial''}, base_eta = 5\<rparr>,
     \<lparr>unit_id = ''Fire-2'', unit_type = ''fire'', location = ''Station Bravo'',
       capabilities = {''wildfire'', ''structure''}, base_eta = 7\<rparr>,
     \<lparr>unit_id = ''Ambulance-2'', unit_type = ''ems'', location = ''Medic Hub'',
       capabilities = {''medical'', ''triage''}, base_eta = 6\<rparr>,
     \<lparr>unit_id = ''Rescue-3'', unit_type = ''rescue'', location = ''Urban SAR'',
       capabilities = {''collapse'', ''water''}, base_eta = 8\<rparr>]"

text \<open>
  The status map as the module creates it; \<open>t0 i\<close> is the time read for the unit \<open>i\<close>
  at import.
\<close>

definition UNIT_STATUS_init :: "(string \<Rightarrow> real) \<Rightarrow> string \<rightharpoonup> unit_state" where
  "UNIT_STATUS_init t0 =
     map_of (map (\<lambda>u. (unit_id u, \<lparr>status = ''available'', incident_id = PNone,
                                  last_updated = t0 (unit_id u)\<rparr>))
               UNIT_REGISTRY)"

definition SECTOR_MODIFIERS :: "string \<rightharpoonup> int" where
  "SECTOR_MODIFIERS = map_of
     [(''sector 1'', 3), (''sector 2'', 4), (''sector 3'', 5), (''sector 4'', 6),
      (''sector 5'', 7), (''sector 6'', 8), (''sector 7'', 4), (''sector 8'', 5)]"

text \<open>\<open>_normalize\<close> at its declared type \<open>Optional[str]\<close>.\<close>

definition normalize_str :: "string option \<Rightarrow> string" where
  "normalize_str v = lower (strip (case v of None \<Rightarrow> ''unknown'' | Some s \<Rightarrow> if s = [] then ''unknown'' else s))"

text \<open>
  \<open>_normalize\<close> on an arbitrary object: a false object gives \<open>unknown\<close>, a true object
  that is not a string has no \<open>strip\<close>.
\<close>

definition normalize_val :: "pyval \<Rightarrow> error + string" where
  "normalize_val v =
     (if \<not> truthy v then Inr (normalize_str None)
      else case v of PStr s \<Rightarrow> Inr (normalize_str (Some s)) | _ \<Rightarrow> Inl AttributeError)"

text \<open>\<open>_estimate_arrival_minutes\<close>; \<open>jitter\<close> is the value \<open>random.randint(-1, 1)\<close> returned.\<close>

definition estimate_arrival_minutes :: "runit \<Rightarrow> string option \<Rightarrow> int \<Rightarrow> int" where
  "estimate_arrival_minutes unit loc jitter =
     (let sector = normalize_str loc;
          modifier = (case SECTOR_MODIFIERS sector of Some m \<Rightarrow> m | None \<Rightarrow> 6);
          eta = base_eta unit
      in max 3 (eta + modifier div 2 + jitter))"

text \<open>\<open>_score_unit\<close>. The score is a float holding a small whole number.\<close>

definition score_unit :: "'a runit_scheme \<Rightarrow> pydict \<Rightarrow> error + int" where
  "score_unit unit incident =
     (case normalize_val (dict_get incident ''type'') of
        Inl e \<Rightarrow> Inl e
      | Inr incident_type \<Rightarrow>
     (case normalize_val (dict_get incident ''urgency'') of
        Inl e \<Rightarrow> Inl e
      | Inr urgency \<Rightarrow>
          Inr ((if incident_type \<noteq> [] \<and> incident_type \<in> capabilities unit then 4 else 0)
             + (if str_in incident_type (unit_type unit) then 3 else 0)
             + (if urgency \<in> {''critical'', ''high''} then 2 else 0))))"

text \<open>
  The mutable state of the process: how often the clock has been read, the module
  globals \<open>_gemini_backoff_until\<close> and \<open>_UNIT_STATUS\<close>, the generation requests issued
  so far (model and prompt, oldest first) and the number of random draws made so far.
\<close>

record world =
  ticks :: nat
  gemini_backoff_until :: pyfloat
  requests :: "(string \<times> string) list"
  unit_status :: "string \<rightharpoonup> unit_state"
  draws :: nat

text \<open>Reading the clock.\<close>

definition now :: "externals \<Rightarrow> world \<Rightarrow> real" where
  "now ext w = time_at ext (ticks w)"

definition tick :: "world \<Rightarrow> world" where
  "tick w = w\<lparr>ticks := Suc (ticks w)\<rparr>"

text \<open>
  The loop of \<open>get_available_units\<close>: \<open>k\<close> counts the random draws. A unit whose id is
  not a key of the status map raises \<open>KeyError\<close>.
\<close>

fun collect_candidates ::
  "externals \<Rightarrow> string option \<Rightarrow> (string \<rightharpoonup> unit_state) \<Rightarrow> runit list \<Rightarrow> nat
     \<Rightarrow> error + (enriched list \<times> nat)" where
  "collect_candidates ext utype st [] k = Inr ([], k)"
| "collect_candidates ext utype st (u # us) k =
     (case st (unit_id u) of
        None \<Rightarrow> Inl KeyError
      | Some s \<Rightarrow>
          if status s \<noteq> ''available'' then collect_candidates ext utype st us k
          else if (case utype of None \<Rightarrow> False
                   | Some t \<Rightarrow> t \<noteq> [] \<and> \<not> str_in (normalize_str (Some t)) (unit_type u))
          then collect_candidates ext utype st us k
          else (case collect_candidates ext utype st us (Suc k) of
                  Inl e \<Rightarrow> Inl e
                | Inr (cs, k') \<Rightarrow>
                    Inr (\<lparr>unit_id = unit_id u, unit_type = unit_type u, location = location u,
                          capabilities = capabilities u, base_eta = base_eta u,
                          eta_minutes = estimate_arrival_minutes u (Some (location u))
                                          (randint ext (- 1) 1 k)\<rparr> # cs, k')))"

definition get_available_units ::
  "externals \<Rightarrow> string option \<Rightarrow> int option \<Rightarrow> world \<Rightarrow> error + (enriched list \<times> world)" where
  "get_available_units ext utype limit w =
     (case collect_candidates ext utype (unit_status w) UNIT_REGISTRY (draws w) of
        Inl e \<Rightarrow> Inl e
      | Inr (candidates, k) \<Rightarrow>
          let sorted_c = sort_key eta_minutes candidates;
              limited = (case limit of None \<Rightarrow> sorted_c
                         | Some n \<Rightarrow> if n \<noteq> 0 then py_take n sorted_c else sorted_c)
          in Inr (limited, w\<lparr>draws := k\<rparr>))"

text \<open>The loop of \<open>recommend_units_for_incident\<close>.\<close>

fun rank_units :: "enriched list \<Rightarrow> pydict \<Rightarrow> error + (int \<times> enriched) list" where
  "rank_units [] incident = Inr []"
| "rank_units (u # us) incident =
     (case score_unit u incident of
        Inl e \<Rightarrow> Inl e
      | Inr score \<Rightarrow>
          (case rank_units us incident of
             Inl e \<Rightarrow> Inl e
           | Inr ranked \<Rightarrow> Inr (if score \<le> 0 then ranked else (score, u) # ranked)))"

text \<open>
  \<open>ranked.sort(key=lambda item: item[0], reverse=True)\<close>: Python's sort is stable, also
  when reversed, so this is the stable sort on the negated score.
\<close>

definition sort_ranked :: "(int \<times> enriched) list \<Rightarrow> (int \<times> enriched) list" where
  "sort_ranked ranked = sort_key (\<lambda>item. - fst item) ranked"

definition recommend_units_for_incident ::
  "externals \<Rightarrow> pydict \<Rightarrow> int \<Rightarrow> world \<Rightarrow> error + (enriched list \<times> world)" where
  "recommend_units_for_incident ext incident limit w =
     (case get_available_units ext None None w of
        Inl e \<Rightarrow> Inl e
      | Inr (units, w') \<Rightarrow>
          (case rank_units units incident of
             Inl e \<Rightarrow> Inl e
           | Inr ranked \<Rightarrow> Inr (map snd (py_take limit (sort_ranked ranked)), w')))"

definition generate_incident_brief :: "externals \<Rightarrow> pydict \<Rightarrow> string" where
  "generate_incident_brief ext incident =
     (let incident_type = dict_get_default incident ''type'' (PStr ''Incident'');
          loc = dict_get_default incident ''location'' (PStr ''unknown area'');
          details = py_or (py_or (dict_get incident ''details'') (dict_get incident ''description''))
                          (PStr []);
          urgency = dict_get_default incident ''urgency'' (PStr ''CRITICAL'');
          extra = (if truthy details then '' Details: '' @ py_str ext details else [])
      in strip (py_str ext incident_type @ '' at '' @ py_str ext loc @ '' - urgency ''
                @ py_str ext urgency @ ''.'' @ extra))"

text \<open>The dictionary \<open>plan_relief_response\<close> returns: always these four keys.\<close>

record plan =
  summary :: string
  recommendation :: string
  resources :: "string list"
  resource_summary :: string

definition describe_unit :: "externals \<Rightarrow> enriched \<Rightarrow> string" where
  "describe_unit ext unit =
     unit_id unit @ '' ('' @ unit_type unit @ '', ETA '' @ py_str ext (PInt (eta_minutes unit)) @ ''m)''"

definition plan_relief_response ::
  "externals \<Rightarrow> pydict \<Rightarrow> int \<Rightarrow> world \<Rightarrow> error + (plan \<times> world)" where
  "plan_relief_response ext incident limit w =
     (let summ = generate_incident_brief ext incident in
      case recommend_units_for_incident ext incident limit w of
        Inl e \<Rightarrow> Inl e
      | Inr (ranked_units, w') \<Rightarrow>
          let loc = dict_get_default incident ''location'' (PStr ''the scene'') in
          Inr (case ranked_units of
                 u0 # _ \<Rightarrow>
                   \<lparr>summary = summ,
                    recommendation = ''Dispatch '' @ unit_id u0 @ '' to '' @ py_str ext loc @ ''.'',
                    resources = map unit_id ranked_units,
                    resource_summary =
                      ''Primary assignments: '' @ join '', '' (map (describe_unit ext) ranked_units)\<rparr>
               | [] \<Rightarrow>
                   \<lparr>summary = summ,
                    recommendation = ''Hold and escalate to manual supervisor; no units free.'',
                    resources = [],
                    resource_summary = ''All units busy; advise manual review.''\<rparr>,
               w'))"

text \<open>
  \<open>format_display_alert\<close>. The arguments are whatever the envelope holds; an incident
  that is true and not a dictionary has no \<open>get\<close>.
\<close>

definition format_display_alert ::
  "externals \<Rightarrow> pyval \<Rightarrow> pyval \<Rightarrow> pyval \<Rightarrow> pyval \<Rightarrow> error + string" where
  "format_display_alert ext summ recomm incident urgency =
     (case py_or incident (PDict []) of
        PDict inc \<Rightarrow>
          let urg = (if truthy urgency then urgency
                     else dict_get_default inc ''urgency'' (PStr ''CRITICAL''));
              loc = dict_get_default inc ''location'' (PStr []);
              incident_type = dict_get_default inc ''type'' (PStr []);
              base = strip (py_str ext urg @ '' '' @ py_str ext incident_type @ '' '' @ py_str ext loc);
              tail = py_or recomm summ;
              message = strip (base @ '': '' @ py_str ext tail)
          in Inr (if length message > 60 then take 57 message @ ''...'' else message)
      | _ \<Rightarrow> Inl AttributeError)"

text \<open>
  The record \<open>notify_dispatch\<close> returns. The function reads the clock once for the
  record and, for a known unit, once more for \<open>last_updated\<close>.
\<close>

record dispatch_record =
  rec_unit_id :: string
  rec_incident_id :: pyval
  rec_location :: pyval
  rec_timestamp :: string
  rec_status :: string

definition notify_dispatch ::
  "externals \<Rightarrow> string \<Rightarrow> pydict \<Rightarrow> world \<Rightarrow> dispatch_record \<times> world" where
  "notify_dispatch ext uid incident w =
     (let rcd = \<lparr>rec_unit_id = uid,
                 rec_incident_id = dict_get incident ''id'',
                 rec_location = dict_get incident ''location'',
                 rec_timestamp = isoformat ext (now ext w),
                 rec_status = ''queued''\<rparr>;
          w1 = tick w
      in (rcd,
          if uid \<in> dom (unit_status w1)
          then tick (w1\<lparr>unit_status := (unit_status w1)(uid \<mapsto>
                  \<lparr>status = ''assigned'', incident_id = dict_get incident ''id'',
                   last_updated = now ext w1\<rparr>)\<rparr>)
          else w1))"

definition release_unit :: "externals \<Rightarrow> string \<Rightarrow> world \<Rightarrow> world" where
  "release_unit ext uid w =
     (if uid \<in> dom (unit_status w)
      then tick (w\<lparr>unit_status := (unit_status w)(uid \<mapsto>
              \<lparr>status = ''available'', incident_id = PNone, last_updated = now ext w\<rparr>)\<rparr>)
      else w)"

section \<open>agents.py: configuration and the invoker\<close>

text \<open>
  The module constants read from the environment. \<open>GOOGLE_API_KEY\<close> is \<open>None\<close> when
  the variable \<open>API_KEY\<close> is not set.
\<close>

record config =
  GOOGLE_API_KEY :: "string option"
  USE_GEMINI :: bool
  GEMINI_BACKOFF_SECONDS :: int
  DISPATCH_MODEL_CHAIN :: "string list"
  RESOURCE_MODEL_CHAIN :: "string list"
  SUMMARY_MODEL_CHAIN :: "string list"

text \<open>\<open>s.split(",")\<close>.\<close>

fun split_comma :: "string \<Rightarrow> string list" where
  "split_comma [] = [] # []"
| "split_comma (c # cs) =
     (if c = CHR '','' then [] # split_comma cs
      else (case split_comma cs of [] \<Rightarrow> [c] # [] | p # ps \<Rightarrow> (c # p) # ps))"

definition parse_model_chain :: "string option \<Rightarrow> string list \<Rightarrow> string list" where
  "parse_model_chain v dflt =
     (case v of
        None \<Rightarrow> dflt
      | Some s \<Rightarrow> if s \<noteq> [] then filter (\<lambda>m. m \<noteq> []) (map strip (split_comma s)) else dflt)"

text \<open>
  The constants as the module computes them from the environment \<open>getenv\<close>;
  \<open>py_int\<close> is Python's \<open>int()\<close> on a string, and \<open>int("45")\<close> is 45.
\<close>

definition load_config :: "(string \<Rightarrow> string option) \<Rightarrow> (string \<Rightarrow> int) \<Rightarrow> config" where
  "load_config getenv py_int =
     \<lparr>GOOGLE_API_KEY = getenv ''API_KEY'',
      USE_GEMINI =
        (lower (strip (case getenv ''USE_GEMINI'' of None \<Rightarrow> ''true'' | Some s \<Rightarrow> s))
           \<notin> {''0'', ''false'', ''no'', ''off''}),
      GEMINI_BACKOFF_SECONDS =
        (case getenv ''GEMINI_BACKOFF_SECONDS'' of None \<Rightarrow> 45 | Some s \<Rightarrow> py_int s),
      DISPATCH_MODEL_CHAIN = parse_model_chain (getenv ''DISPATCH_MODELS'')
        [''models/gemini-2.5-flash'', ''models/gemini-1.5-flash'', ''models/gemini-lite''],
      RESOURCE_MODEL_CHAIN = parse_model_chain (getenv ''RESOURCE_MODELS'')
        [''models/gemini-2.5-pro'', ''models/gemini-1.5-pro'', ''models/gemini-1.5-flash''],
      SUMMARY_MODEL_CHAIN = parse_model_chain (getenv ''SUMMARY_MODELS'')
        [''models/gemini-2.5-flash'', ''models/gemini-1.5-flash'', ''models/gemini-lite'']\<rparr>"

text \<open>
  \<open>_gemini_available\<close>. The conjunction is evaluated from the left, so the clock is
  read (once) only when a key is configured and the feature is enabled.
\<close>

definition configured :: "config \<Rightarrow> bool" where
  "configured cfg =
     ((case GOOGLE_API_KEY cfg of None \<Rightarrow> False | Some k \<Rightarrow> k \<noteq> []) \<and> USE_GEMINI cfg)"

definition gemini_available :: "config \<Rightarrow> externals \<Rightarrow> world \<Rightarrow> bool \<times> world" where
  "gemini_available cfg ext w =
     (if configured cfg then (reached (now ext w) (gemini_backoff_until w), tick w) else (False, w))"

definition rate_limited :: "string \<Rightarrow> bool" where
  "rate_limited error_message =
     (let lower_msg = lower error_message
      in str_in ''429'' lower_msg \<or> str_in ''quota'' lower_msg \<or> str_in ''rate limit'' lower_msg)"

text \<open>
  \<open>_trip_gemini_backoff\<close>. The sum \<open>time.time() + GEMINI_BACKOFF_SECONDS\<close> is that of a
  float and an integer of any size: it is rounded, and it raises \<open>OverflowError\<close> when the
  integer is beyond the range of floats.
\<close>

definition trip_gemini_backoff :: "config \<Rightarrow> externals \<Rightarrow> string \<Rightarrow> world \<Rightarrow> error + world" where
  "trip_gemini_backoff cfg ext error_message w =
     (if rate_limited error_message
      then (case float_add ext (now ext w) (GEMINI_BACKOFF_SECONDS cfg) of
              None \<Rightarrow> Inl OverflowError
            | Some s \<Rightarrow> Inr (tick (w\<lparr>gemini_backoff_until := s\<rparr>)))
      else Inr w)"

text \<open>
  The body of the \<open>try\<close> once \<open>generate_content\<close> has answered. \<open>read_text\<close> is the
  text the code gets out of the response: the text of the response, else the joined texts
  of the parts of the first candidate, else the empty string; reading either can raise.
  \<open>read_response\<close> is the same stripped, as the \<open>try\<close> returns it.
\<close>

definition read_text :: "response \<Rightarrow> string + string" where
  "read_text r =
     (case resp_text r of
        Inl e \<Rightarrow> Inl e
      | Inr v \<Rightarrow>
          let t0 = (case v of None \<Rightarrow> [] | Some s \<Rightarrow> s)
          in if t0 = [] then
               (case resp_candidates r of
                  Inl e \<Rightarrow> Inl e
                | Inr None \<Rightarrow> Inr t0
                | Inr (Some []) \<Rightarrow> Inr t0
                | Inr (Some (parts # _)) \<Rightarrow>
                    Inr (if parts \<noteq> []
                         then concat (map (\<lambda>p. case p of None \<Rightarrow> [] | Some s \<Rightarrow> s) parts)
                         else t0))
             else Inr t0)"

definition read_response :: "response \<Rightarrow> string + string" where
  "read_response r = (case read_text r of Inl e \<Rightarrow> Inl e | Inr t \<Rightarrow> Inr (strip t))"

text \<open>
  One pass through the \<open>try\<close> for one model, as request number \<open>n\<close>: \<open>Inl\<close> is the text
  of the exception that the call or the reading of the response raises, \<open>Inr\<close> the text
  returned.
\<close>

definition attempt :: "externals \<Rightarrow> nat \<Rightarrow> string \<Rightarrow> string \<Rightarrow> string + string" where
  "attempt ext n model_name prompt =
     (case generate ext n model_name prompt of
        Raises e \<Rightarrow> Inl e
      | Answers r \<Rightarrow> read_response r)"

definition error_sentinel :: "string \<Rightarrow> string" where
  "error_sentinel last_error =
     ''[Gemini error: '' @ (if last_error \<noteq> [] then last_error else ''unavailable'') @ '']''"

text \<open>
  The loop of \<open>_run_gemini\<close> over the model chain. It returns the text, the value of the
  local variable \<open>last_error\<close> at the return, and the state. An exception raised by
  \<open>_trip_gemini_backoff\<close> is raised inside the \<open>except\<close> branch and leaves the function.
\<close>

fun try_models ::
  "config \<Rightarrow> externals \<Rightarrow> string \<Rightarrow> string list \<Rightarrow> string \<Rightarrow> world
     \<Rightarrow> error + (string \<times> string \<times> world)" where
  "try_models cfg ext prompt [] last_error w = Inr (error_sentinel last_error, last_error, w)"
| "try_models cfg ext prompt (model_name # rest) last_error w =
     (let w1 = w\<lparr>requests := requests w @ [(model_name, prompt)]\<rparr> in
      case attempt ext (length (requests w)) model_name prompt of
        Inr t \<Rightarrow> Inr (t, last_error, w1)
      | Inl e \<Rightarrow>
          (case trip_gemini_backoff cfg ext e w1 of
             Inl err \<Rightarrow> Inl err
           | Inr w2 \<Rightarrow> try_models cfg ext prompt rest e w2))"

definition run_gemini ::
  "config \<Rightarrow> externals \<Rightarrow> string \<Rightarrow> string list \<Rightarrow> world
     \<Rightarrow> error + (string \<times> string \<times> world)" where
  "run_gemini cfg ext prompt model_chain w =
     (case gemini_available cfg ext w of
        (False, w1) \<Rightarrow> Inr (''[Gemini disabled]'', [], w1)
      | (True, w1) \<Rightarrow> try_models cfg ext prompt model_chain [] w1)"

section \<open>agents.py: envelope, session, memory\<close>

record trace_entry =
  agent :: string
  message :: pyval

record envelope =
  content :: pydict
  sender :: "string option"
  receiver :: "string option"
  trace :: "trace_entry list"
  ctxt :: pydict

definition MessageEnvelope ::
  "pydict option \<Rightarrow> string option \<Rightarrow> string option \<Rightarrow> trace_entry list option \<Rightarrow> pydict option
     \<Rightarrow> envelope" where
  "MessageEnvelope c s r t x =
     \<lparr>content = (case c of None \<Rightarrow> [] | Some d \<Rightarrow> d), sender = s, receiver = r,
      trace = (case t of None \<Rightarrow> [] | Some l \<Rightarrow> l),
      ctxt = (case x of None \<Rightarrow> [] | Some d \<Rightarrow> d)\<rparr>"

definition add_trace :: "envelope \<Rightarrow> string \<Rightarrow> pyval \<Rightarrow> envelope" where
  "add_trace env a m = env\<lparr>trace := trace env @ [\<lparr>agent = a, message = m\<rparr>]\<rparr>"

definition opt_str :: "string option \<Rightarrow> pyval" where
  "opt_str s = (case s of None \<Rightarrow> PNone | Some x \<Rightarrow> PStr x)"

definition to_dict :: "envelope \<Rightarrow> pydict" where
  "to_dict env =
     [(''content'', PDict (content env)),
      (''sender'', opt_str (sender env)),
      (''receiver'', opt_str (receiver env)),
      (''trace'', PList (map (\<lambda>e. PDict [(''agent'', PStr (agent e)), (''message'', message e)])
                           (trace env))),
      (''context'', PDict (ctxt env))]"

record session =
  session_id :: string
  session_history :: "(string \<times> pyval) list"

definition add_turn :: "session \<Rightarrow> string \<Rightarrow> pyval \<Rightarrow> session" where
  "add_turn s user_msg agent_msg = s\<lparr>session_history := session_history s @ [(user_msg, agent_msg)]\<rparr>"

text \<open>\<open>if session: session.add_turn(...)\<close>; a session object is always true.\<close>

definition session_turn :: "session option \<Rightarrow> string \<Rightarrow> pyval \<Rightarrow> session option" where
  "session_turn s user_msg agent_msg = map_option (\<lambda>x. add_turn x user_msg agent_msg) s"

text \<open>
  The four agent classes. A dispatch or resource agent carries its memory (the list
  \<open>knowledge\<close>), the decision agent its history; an entry of the history is the
  dictionary the code builds.
\<close>

datatype agent_inst =
    DispatchAgent string "pyval list"
  | ResourceAgent string "pyval list"
  | SummaryAgent string
  | DecisionAgent string "pydict list"

fun agent_name :: "agent_inst \<Rightarrow> string" where
  "agent_name (DispatchAgent n m) = n"
| "agent_name (ResourceAgent n m) = n"
| "agent_name (SummaryAgent n) = n"
| "agent_name (DecisionAgent n h) = n"

fun get_history :: "agent_inst \<Rightarrow> pydict list" where
  "get_history (DecisionAgent n h) = h"
| "get_history _ = []"

section \<open>agents.py: the agents\<close>

text \<open>
  \<open>handle_envelope\<close> of each class. It returns the envelope, the agent object with its
  memory or history updated, the session and the state of the process; \<open>Inl\<close> is an
  exception that leaves the method. The logging calls are left out. Where the content
  has no key \<open>incident\<close>, Python binds \<open>incident\<close> to the content dictionary itself and
  then stores it under that key, a dictionary that contains itself; the model stores the
  content as it was read. The two differ in the text of the prompt and in the memory
  only: no agent reads a key of the incident that an agent writes.
\<close>

type_synonym handled = "error + (envelope \<times> agent_inst \<times> session option \<times> world)"

text \<open>\<open>DecisionAgent.handle_decision\<close>: the entry and the new history.\<close>

definition decision_entry :: "externals \<Rightarrow> pyval \<Rightarrow> pyval \<Rightarrow> world \<Rightarrow> pydict" where
  "decision_entry ext action inc_id w =
     (let st = (if action \<in> {PStr ''SEND'', PStr ''HOLD''} then ''success'' else ''error'');
          msg = (if st = ''success'' then ''Action '' @ py_str ext action @ '' processed''
                 else ''Unknown action: '' @ py_str ext action)
      in [(''action'', action), (''status'', PStr st), (''message'', PStr msg),
          (''incident_id'', inc_id), (''timestamp'', PStr (isoformat ext (now ext w)))])"

definition handle_decision ::
  "externals \<Rightarrow> string \<Rightarrow> pydict list \<Rightarrow> pyval \<Rightarrow> pyval \<Rightarrow> world \<Rightarrow> pydict \<times> agent_inst \<times> world" where
  "handle_decision ext name history action inc_id w =
     (let entry = decision_entry ext action inc_id w
      in (entry, DecisionAgent name (py_last_n 10 (history @ [entry])), tick w))"

definition decision_handle_envelope ::
  "externals \<Rightarrow> string \<Rightarrow> pydict list \<Rightarrow> envelope \<Rightarrow> session option \<Rightarrow> world \<Rightarrow> handled" where
  "decision_handle_envelope ext name history env sess w =
     (let c = content env;
          action = dict_get c ''action'';
          inc_id = dict_get c ''incident_id'';
          entry = decision_entry ext action inc_id w;
          c1 = dict_set c ''decision_status'' (dict_get entry ''status'');
          c2 = dict_set c1 ''decision_message'' (dict_get entry ''message'');
          env1 = add_trace env name (PDict entry)
      in Inr (env1\<lparr>content := c2\<rparr>,
              DecisionAgent name (py_last_n 10 (history @ [entry])), sess, tick w))"

definition summary_prompt :: "externals \<Rightarrow> pyval \<Rightarrow> pyval \<Rightarrow> pyval \<Rightarrow> string" where
  "summary_prompt ext summ recomm urgency =
     ''You are a UI assistant for a tiny dispatch terminal. ''
     @ ''Given this summary: '' @ py_str ext summ @ [CHR 0x0A]
     @ ''and this recommendation: '' @ py_str ext recomm @ [CHR 0x0A]
     @ ''and this urgency: '' @ py_str ext urgency @ [CHR 0x0A]
     @ ''Generate a concise, plain-language alert (max 60 chars) for a small screen. ''
     @ ''Do not include JSON, just the message.''"

definition summarize_for_display ::
  "config \<Rightarrow> externals \<Rightarrow> pyval \<Rightarrow> pyval \<Rightarrow> pyval \<Rightarrow> pyval \<Rightarrow> world \<Rightarrow> error + (string \<times> world)" where
  "summarize_for_display cfg ext summ recomm urgency incident w =
     (case run_gemini cfg ext (summary_prompt ext summ recomm urgency) (SUMMARY_MODEL_CHAIN cfg) w of
        Inl e \<Rightarrow> Inl e
      | Inr (response, _, w1) \<Rightarrow>
          if startswith response ''[Gemini''
          then (case format_display_alert ext summ recomm incident urgency of
                  Inl e \<Rightarrow> Inl e
                | Inr alert \<Rightarrow> Inr (alert, w1))
          else Inr (strip response, w1))"

definition summary_handle_envelope ::
  "config \<Rightarrow> externals \<Rightarrow> string \<Rightarrow> envelope \<Rightarrow> session option \<Rightarrow> world \<Rightarrow> handled" where
  "summary_handle_envelope cfg ext name env sess w =
     (let c = content env;
          summ = dict_get_default c ''summary'' (PStr []);
          recomm = dict_get_default c ''recommendation'' (PStr []);
          urgency = dict_get_default c ''urgency'' (PStr ''CRITICAL'');
          incident = dict_get_default c ''incident'' (PDict [])
      in case summarize_for_display cfg ext summ recomm urgency incident w of
           Inl e \<Rightarrow> Inl e
         | Inr (display_summary, w1) \<Rightarrow>
             let c1 = dict_set c ''display_summary'' (PStr display_summary);
                 env1 = add_trace env name (PDict [(''display_summary'', PStr display_summary)])
             in Inr (env1\<lparr>content := c1\<rparr>, SummaryAgent name, sess, w1))"

text \<open>
  \<open>plan_relief_response(incident)\<close> as the agents call it: with the default limit, on
  whatever object the envelope holds as the incident. Only a dictionary has \<open>get\<close>.
\<close>

definition plan_fallback :: "externals \<Rightarrow> pyval \<Rightarrow> world \<Rightarrow> error + (plan \<times> world)" where
  "plan_fallback ext incident w =
     (case incident of PDict d \<Rightarrow> plan_relief_response ext d 2 w | _ \<Rightarrow> Inl AttributeError)"

definition dispatch_prompt :: "externals \<Rightarrow> pyval \<Rightarrow> string" where
  "dispatch_prompt ext incident =
     ''You are a dispatch agent. Given this incident: '' @ py_str ext incident @ '', ''
     @ ''summarize the situation and recommend the best unit to deploy. ''
     @ ''Respond with a JSON object with 'summary' and 'recommendation'.''"

text \<open>
  The \<open>try\<close> of \<open>_plan_dispatch\<close>: \<open>json.loads\<close> raises, or its result is not a dictionary
  and has no \<open>get\<close>; both are caught and the raw text becomes both fields.
\<close>

definition parse_plan :: "externals \<Rightarrow> string \<Rightarrow> pyval \<times> pyval" where
  "parse_plan ext llm_response =
     (case json_loads ext llm_response of
        Some (PDict result) \<Rightarrow>
          (dict_get_default result ''summary'' (PStr []),
           dict_get_default result ''recommendation'' (PStr []))
      | _ \<Rightarrow> (PStr llm_response, PStr llm_response))"

text \<open>
  The test \<open>not plan["summary"] or plan["summary"].startswith("[Gemini")\<close>: a true
  object that is not a string has no \<open>startswith\<close>.
\<close>

definition needs_fallback :: "pyval \<Rightarrow> error + bool" where
  "needs_fallback summ =
     (if \<not> truthy summ then Inr True
      else case summ of PStr s \<Rightarrow> Inr (startswith s ''[Gemini'') | _ \<Rightarrow> Inl AttributeError)"

definition plan_dispatch ::
  "config \<Rightarrow> externals \<Rightarrow> pyval \<Rightarrow> world \<Rightarrow> error + ((pyval \<times> pyval) \<times> world)" where
  "plan_dispatch cfg ext incident w =
     (case run_gemini cfg ext (dispatch_prompt ext incident) (DISPATCH_MODEL_CHAIN cfg) w of
        Inl e \<Rightarrow> Inl e
      | Inr (llm_response, _, w1) \<Rightarrow>
          let p = parse_plan ext llm_response in
          case needs_fallback (fst p) of
            Inl e \<Rightarrow> Inl e
          | Inr False \<Rightarrow> Inr (p, w1)
          | Inr True \<Rightarrow>
              (case plan_fallback ext incident w1 of
                 Inl e \<Rightarrow> Inl e
               | Inr (fallback, w2) \<Rightarrow>
                   Inr ((PStr (summary fallback), PStr (recommendation fallback)), w2)))"

definition dispatch_handle_envelope ::
  "config \<Rightarrow> externals \<Rightarrow> string \<Rightarrow> pyval list \<Rightarrow> envelope \<Rightarrow> session option \<Rightarrow> world \<Rightarrow> handled" where
  "dispatch_handle_envelope cfg ext name knowledge env sess w =
     (let incident = dict_get_default (content env) ''incident'' (PDict (content env))
      in case plan_dispatch cfg ext incident w of
           Inl e \<Rightarrow> Inl e
         | Inr ((summ, recomm), w1) \<Rightarrow>
             let knowledge1 = knowledge @ [PDict [(''incident'', incident), (''summary'', summ)]];
                 sess1 = session_turn sess (py_str ext incident) recomm;
                 c1 = dict_set (content env) ''incident'' incident;
                 c2 = dict_set c1 ''summary'' summ;
                 c3 = dict_set c2 ''recommendation'' recomm;
                 env1 = add_trace (env\<lparr>content := c3\<rparr>) name
                          (PDict [(''summary'', summ), (''recommendation'', recomm)])
             in Inr (env1, DispatchAgent name knowledge1, sess1, w1))"

definition resource_prompt :: "externals \<Rightarrow> pyval \<Rightarrow> string" where
  "resource_prompt ext incident =
     ''You are a resource allocation agent. Given this incident: '' @ py_str ext incident @ '', ''
     @ ''list the best resources or units to send. ''
     @ ''Respond with a JSON object with a 'resources' list and a 'summary' string.''"

definition parse_resources :: "externals \<Rightarrow> string \<Rightarrow> pyval \<times> pyval" where
  "parse_resources ext llm_response =
     (case json_loads ext llm_response of
        Some (PDict result) \<Rightarrow>
          (dict_get_default result ''resources'' (PList []),
           dict_get_default result ''summary'' (PStr []))
      | _ \<Rightarrow> (PList [], PStr llm_response))"

text \<open>
  The test \<open>not resources or (isinstance(resources, str) and
  resources.startswith("[Gemini"))\<close>.
\<close>

definition resources_unusable :: "pyval \<Rightarrow> bool" where
  "resources_unusable res =
     (\<not> truthy res \<or> (case res of PStr s \<Rightarrow> startswith s ''[Gemini'' | _ \<Rightarrow> False))"

definition resource_handle_envelope ::
  "config \<Rightarrow> externals \<Rightarrow> string \<Rightarrow> pyval list \<Rightarrow> envelope \<Rightarrow> session option \<Rightarrow> world \<Rightarrow> handled" where
  "resource_handle_envelope cfg ext name knowledge env sess w =
     (let incident = dict_get_default (content env) ''incident'' (PDict (content env))
      in case run_gemini cfg ext (resource_prompt ext incident) (RESOURCE_MODEL_CHAIN cfg) w of
        Inl e \<Rightarrow> Inl e
      | Inr (llm_response, _, w1) \<Rightarrow>
          let p = parse_resources ext llm_response in
          case (if resources_unusable (fst p)
                then (case plan_fallback ext incident w1 of
                        Inl e \<Rightarrow> Inl e
                      | Inr (fallback, w2) \<Rightarrow>
                          Inr ((PList (map PStr (resources fallback)),
                                PStr (resource_summary fallback)), w2))
                else Inr (p, w1)) of
            Inl e \<Rightarrow> Inl e
          | Inr ((res, res_summary), w2) \<Rightarrow>
              let knowledge1 = knowledge @ [PDict [(''incident'', incident), (''resources'', res)]];
                  sess1 = session_turn sess (py_str ext incident) res_summary;
                  c1 = dict_set (content env) ''resources'' res;
                  c2 = dict_set c1 ''resource_summary'' res_summary;
                  env1 = add_trace (env\<lparr>content := c2\<rparr>) name
                           (PDict [(''resources'', res), (''resource_summary'', res_summary)])
              in Inr (env1, ResourceAgent name knowledge1, sess1, w2))"

fun handle_envelope ::
  "config \<Rightarrow> externals \<Rightarrow> agent_inst \<Rightarrow> envelope \<Rightarrow> session option \<Rightarrow> world \<Rightarrow> handled" where
  "handle_envelope cfg ext (DispatchAgent n k) env sess w = dispatch_handle_envelope cfg ext n k env sess w"
| "handle_envelope cfg ext (ResourceAgent n k) env sess w = resource_handle_envelope cfg ext n k env sess w"
| "handle_envelope cfg ext (SummaryAgent n) env sess w = summary_handle_envelope cfg ext n env sess w"
| "handle_envelope cfg ext (DecisionAgent n h) env sess w = decision_handle_envelope ext n h env sess w"

section \<open>agents.py: orchestration\<close>

text \<open>
  \<open>A2AOrchestrator.orchestrate\<close>: the agents already run are collected in order, so
  the result holds the agent objects as the run leaves them.
\<close>

fun orchestrate ::
  "config \<Rightarrow> externals \<Rightarrow> agent_inst list \<Rightarrow> envelope \<Rightarrow> session option \<Rightarrow> world
     \<Rightarrow> error + (envelope \<times> agent_inst list \<times> session option \<times> world)" where
  "orchestrate cfg ext [] env sess w = Inr (env, [], sess, w)"
| "orchestrate cfg ext (a # as) env sess w =
     (case handle_envelope cfg ext a (env\<lparr>sender := receiver env, receiver := Some (agent_name a)\<rparr>) sess w of
        Inl e \<Rightarrow> Inl e
      | Inr (env1, a1, sess1, w1) \<Rightarrow>
          (case orchestrate cfg ext as env1 sess1 w1 of
             Inl e \<Rightarrow> Inl e
           | Inr (env2, as2, sess2, w2) \<Rightarrow> Inr (env2, a1 # as2, sess2, w2)))"

text \<open>The loop of \<open>MultiAgentSystem.orchestrate\<close>: no change of sender or receiver.\<close>

fun run_agents ::
  "config \<Rightarrow> externals \<Rightarrow> agent_inst list \<Rightarrow> envelope \<Rightarrow> session option \<Rightarrow> world
     \<Rightarrow> error + (envelope \<times> agent_inst list \<times> session option \<times> world)" where
  "run_agents cfg ext [] env sess w = Inr (env, [], sess, w)"
| "run_agents cfg ext (a # as) env sess w =
     (case handle_envelope cfg ext a env sess w of
        Inl e \<Rightarrow> Inl e
      | Inr (env1, a1, sess1, w1) \<Rightarrow>
          (case run_agents cfg ext as env1 sess1 w1 of
             Inl e \<Rightarrow> Inl e
           | Inr (env2, as2, sess2, w2) \<Rightarrow> Inr (env2, a1 # as2, sess2, w2)))"

text \<open>The envelope \<open>MultiAgentSystem.orchestrate\<close> builds around an incident.\<close>

definition seed_envelope :: "pydict \<Rightarrow> envelope" where
  "seed_envelope incident =
     MessageEnvelope (Some [(''incident'', PDict incident)]) (Some ''user'') None None None"

definition get_dispatch_agent :: agent_inst where
  "get_dispatch_agent = DispatchAgent ''ResQ-Agent'' []"

definition get_resource_agent :: agent_inst where
  "get_resource_agent = ResourceAgent ''Resource-Agent'' []"

definition get_summary_agent :: agent_inst where
  "get_summary_agent = SummaryAgent ''Summary-Agent''"

text \<open>
  \<open>get_decision_agent\<close> returns the one decision agent of the process; \<open>history\<close> is
  what it holds at the moment (empty when it is created).
\<close>

definition get_decision_agent :: "pydict list \<Rightarrow> agent_inst" where
  "get_decision_agent history = DecisionAgent ''Decision-Agent'' history"

definition get_a2a_orchestrator :: "pydict list \<Rightarrow> agent_inst list" where
  "get_a2a_orchestrator history =
     [get_dispatch_agent, get_resource_agent, get_summary_agent, get_decision_agent history]"

section \<open>Sequences of decisions\<close>

text \<open>
  A decision reaches the decision agent through \<open>handle_envelope\<close> or through
  \<open>handle_decision\<close>. \<open>submit_all\<close> feeds a list of submissions to the agent, one after
  the other; \<open>entries_of\<close> lists the entries the code builds for them, in arrival order.
\<close>

datatype submission = ViaEnvelope envelope | ViaDecision pyval pyval

fun submit :: "externals \<Rightarrow> agent_inst \<Rightarrow> submission \<Rightarrow> world \<Rightarrow> agent_inst \<times> world" where
  "submit ext (DecisionAgent n h) (ViaEnvelope env) w =
     (case decision_handle_envelope ext n h env None w of
        Inr (_, a, _, w1) \<Rightarrow> (a, w1)
      | Inl _ \<Rightarrow> (DecisionAgent n h, w))"
| "submit ext (DecisionAgent n h) (ViaDecision action inc_id) w =
     (case handle_decision ext n h action inc_id w of (_, a, w1) \<Rightarrow> (a, w1))"
| "submit ext a _ w = (a, w)"

fun submit_all :: "externals \<Rightarrow> agent_inst \<Rightarrow> submission list \<Rightarrow> world \<Rightarrow> agent_inst \<times> world" where
  "submit_all ext a [] w = (a, w)"
| "submit_all ext a (s # ss) w = (case submit ext a s w of (a1, w1) \<Rightarrow> submit_all ext a1 ss w1)"

fun entry_of :: "externals \<Rightarrow> submission \<Rightarrow> world \<Rightarrow> pydict" where
  "entry_of ext (ViaEnvelope env) w =
     decision_entry ext (dict_get (content env) ''action'') (dict_get (content env) ''incident_id'') w"
| "entry_of ext (ViaDecision action inc_id) w = decision_entry ext action inc_id w"

fun entries_of :: "externals \<Rightarrow> submission list \<Rightarrow> world \<Rightarrow> pydict list" where
  "entries_of ext [] w = []"
| "entries_of ext (s # ss) w = entry_of ext s w # entries_of ext ss (tick w)"

section \<open>Predicates on inputs\<close>

text \<open>An incident of the declared type \<open>Dict[str, str]\<close>: every value is a string.\<close>

definition str_valued :: "pydict \<Rightarrow> bool" where
  "str_valued d = list_all (\<lambda>kv. case snd kv of PStr s \<Rightarrow> True | _ \<Rightarrow> False) d"

text \<open>
  An incident whose type and urgency \<open>_normalize\<close> accepts: each is missing, false
  or a string.
\<close>

definition normalizable :: "pyval \<Rightarrow> bool" where
  "normalizable v = (case v of PStr s \<Rightarrow> True | _ \<Rightarrow> \<not> truthy v)"

definition scorable :: "pydict \<Rightarrow> bool" where
  "scorable d = (normalizable (dict_get d ''type'') \<and> normalizable (dict_get d ''urgency''))"

text \<open>
  Every unit of the registry is a key of the status map, as it is from the import on:
  the code never removes a key.
\<close>

definition registry_known :: "(string \<rightharpoonup> unit_state) \<Rightarrow> bool" where
  "registry_known st = list_all (\<lambda>u. st (unit_id u) \<noteq> None) UNIT_REGISTRY"

text \<open>
  A unit whose status is \<open>available\<close>, and a unit that passes the type filter of
  \<open>get_available_units\<close>.
\<close>

definition available_in :: "(string \<rightharpoonup> unit_state) \<Rightarrow> 'a runit_scheme \<Rightarrow> bool" where
  "available_in st u = (map_option status (st (unit_id u)) = Some ''available'')"

definition type_matches :: "string option \<Rightarrow> 'a runit_scheme \<Rightarrow> bool" where
  "type_matches utype u =
     (case utype of None \<Rightarrow> True | Some t \<Rightarrow> t = [] \<or> str_in (normalize_str (Some t)) (unit_type u))"

text \<open>No unit of the registry has the status \<open>available\<close>.\<close>

definition no_unit_available :: "(string \<rightharpoonup> unit_state) \<Rightarrow> bool" where
  "no_unit_available st = list_all (\<lambda>u. \<not> available_in st u) UNIT_REGISTRY"

text \<open>A text that \<open>json.loads\<close> does not turn into a dictionary.\<close>

definition not_json_object :: "externals \<Rightarrow> string \<Rightarrow> bool" where
  "not_json_object ext s = (case json_loads ext s of Some (PDict d) \<Rightarrow> False | _ \<Rightarrow> True)"

section \<open>The claims in the specification's words\<close>

text \<open>
  The score as the specification words it, on the normalized type and urgency.
\<close>

definition claimed_score :: "'a runit_scheme \<Rightarrow> string \<Rightarrow> string \<Rightarrow> int" where
  "claimed_score unit incident_type urgency =
     (if incident_type \<in> capabilities unit then 4 else 0)
   + (if str_in incident_type (unit_type unit) then 3 else 0)
   + (if urgency \<in> {''critical'', ''high''} then 2 else 0)"

text \<open>
  The selection as the specification words it: the available units in registry order,
  those scoring at most 0 excluded, sorted by score descending with ties keeping
  registry order, the top \<open>n\<close> selected.
\<close>

definition claimed_recommend ::
  "(string \<rightharpoonup> unit_state) \<Rightarrow> string \<Rightarrow> string \<Rightarrow> nat \<Rightarrow> string list" where
  "claimed_recommend st incident_type urgency n =
     (let available = filter (available_in st) UNIT_REGISTRY;
          scoring = filter (\<lambda>u. claimed_score u incident_type urgency > 0) available
      in map unit_id (take n (sort_key (\<lambda>u. - claimed_score u incident_type urgency) scoring)))"

text \<open>
  The model chain as the specification words it: the first model whose response
  carries non-empty text has that text returned, trimmed; a model that raises has its
  error recorded and the next model is attempted.
\<close>

fun claimed_try_models ::
  "config \<Rightarrow> externals \<Rightarrow> string \<Rightarrow> string list \<Rightarrow> string \<Rightarrow> world
     \<Rightarrow> error + (string \<times> string \<times> world)" where
  "claimed_try_models cfg ext prompt [] last_error w = Inr (error_sentinel last_error, last_error, w)"
| "claimed_try_models cfg ext prompt (model_name # rest) last_error w =
     (let w1 = w\<lparr>requests := requests w @ [(model_name, prompt)]\<rparr>;
          failed = (\<lambda>e. case trip_gemini_backoff cfg ext e w1 of
                          Inl err \<Rightarrow> Inl err
                        | Inr w2 \<Rightarrow> claimed_try_models cfg ext prompt rest e w2)
      in case generate ext (length (requests w)) model_name prompt of
           Raises e \<Rightarrow> failed e
         | Answers r \<Rightarrow>
             (case read_text r of
                Inl e \<Rightarrow> failed e
              | Inr t \<Rightarrow>
                  if t \<noteq> [] then Inr (strip t, last_error, w1)
                  else claimed_try_models cfg ext prompt rest last_error w1))"

definition claimed_run_gemini ::
  "config \<Rightarrow> externals \<Rightarrow> string \<Rightarrow> string list \<Rightarrow> world
     \<Rightarrow> error + (string \<times> string \<times> world)" where
  "claimed_run_gemini cfg ext prompt model_chain w =
     (case gemini_available cfg ext w of
        (False, w1) \<Rightarrow> Inr (''[Gemini disabled]'', [], w1)
      | (True, w1) \<Rightarrow> claimed_try_models cfg ext prompt model_chain [] w1)"

text \<open>
  The arrival time as the specification words it, with the half of the modifier as a
  fraction.
\<close>

definition claimed_eta :: "runit \<Rightarrow> string option \<Rightarrow> int \<Rightarrow> real" where
  "claimed_eta unit loc jitter =
     max 3 (real_of_int (base_eta unit)
            + real_of_int (case SECTOR_MODIFIERS (normalize_str loc) of Some m \<Rightarrow> m | None \<Rightarrow> 6) / 2
            + real_of_int jitter)"

section \<open>Concrete inputs\<close>

text \<open>The incident of the repository's test file.\<close>

definition test_incident :: pydict where
  "test_incident = [(''type'', PStr ''Fire''), (''location'', PStr ''Sector 7''), (''urgency'', PStr ''CRITICAL'')]"

definition flood_incident :: pydict where
  "flood_incident = [(''type'', PStr ''flood''), (''urgency'', PStr ''high'')]"

text \<open>The configuration with a key, the feature enabled and the default chains and window.\<close>

definition cfg_on :: config where
  "cfg_on = load_config (\<lambda>v. if v = ''API_KEY'' then Some ''k'' else None) (\<lambda>s. 0)"

text \<open>The same without a key.\<close>

definition cfg_off :: config where
  "cfg_off = load_config (\<lambda>v. None) (\<lambda>s. 0)"

text \<open>
  Backends: one on which every request raises, one that is throttled, one that
  answers every request with the same prose. The clock reads \<open>n\<close> at its \<open>n\<close>-th reading;
  the sum of a clock reading and a window is exact, as it is for whole numbers below
  \<open>2^53\<close>, and raises for an integer of \<open>2^1024\<close> or more; every random draw gives the
  jitter 0.
\<close>

definition ext_with :: "(nat \<Rightarrow> string \<Rightarrow> string \<Rightarrow> outcome) \<Rightarrow> externals" where
  "ext_with g = \<lparr>generate = g, time_at = (\<lambda>n. real n),
                 float_add = (\<lambda>t n. if 2 ^ 1024 \<le> \<bar>n\<bar> then None else Some (Fin (t + real_of_int n))),
                 json_loads = (\<lambda>s. None),
                 py_repr = (\<lambda>v. ''?''), isoformat = (\<lambda>t. ''T''), rand_raw = (\<lambda>k. 1)\<rparr>"

text \<open>
  A response as the library builds it from one candidate with one part that carries the
  text \<open>s\<close>: the accessor \<open>text\<close> gives \<open>s\<close>.
\<close>

definition text_response :: "string \<Rightarrow> response" where
  "text_response s = \<lparr>resp_text = Inr (Some s), resp_candidates = Inr (Some ([Some s] # []))\<rparr>"

definition ext_down :: externals where
  "ext_down = ext_with (\<lambda>n m p. Raises ''connection refused'')"

definition ext_throttled :: externals where
  "ext_throttled = ext_with (\<lambda>n m p. Raises ''HTTP 429: Quota exceeded'')"

definition long_prose :: string where
  "long_prose = ''I am sorry, but I cannot produce a structured answer for this request.''"

definition ext_prose :: externals where
  "ext_prose = ext_with (\<lambda>n m p. Answers (text_response long_prose))"

text \<open>
  A backend on which the models A and B raise and every other model answers; one on
  which the model A answers with a part that carries the empty text and every other model
  answers; one on which the response of the model A has no candidate, so that reading
  its text raises, and every other model answers.
\<close>

definition ext_abc :: externals where
  "ext_abc = ext_with (\<lambda>n m p.
     if m = ''A'' then Raises ''A is overloaded''
     else if m = ''B'' then Raises ''B timed out''
     else Answers (text_response '' text of C ''))"

definition ext_silent_a :: externals where
  "ext_silent_a = ext_with (\<lambda>n m p.
     if m = ''A'' then Answers (text_response [])
     else Answers (text_response ''hello''))"

definition ext_no_candidate :: externals where
  "ext_no_candidate = ext_with (\<lambda>n m p.
     if m = ''A'' then Answers \<lparr>resp_text = Inl ''response.text requires a valid Part'',
                                  resp_candidates = Inr (Some [])\<rparr>
     else Answers (text_response ''hello''))"

text \<open>
  A backend that answers every request with a JSON object holding a summary and an
  empty recommendation.
\<close>

definition ext_json :: externals where
  "ext_json =
     (ext_with (\<lambda>n m p. Answers (text_response ''{\"summary\": \"Fire reported\", \"recommendation\": \"\"}'')))
     \<lparr>json_loads := (\<lambda>s. if s = ''{\"summary\": \"Fire reported\", \"recommendation\": \"\"}''
                          then Some (PDict [(''summary'', PStr ''Fire reported''), (''recommendation'', PStr [])])
                          else None)\<rparr>"

text \<open>
  A backend that answers every request with a JSON object whose summary is the number 5.
\<close>

definition ext_json_number :: externals where
  "ext_json_number =
     (ext_with (\<lambda>n m p. Answers (text_response ''{\"summary\": 5}'')))
     \<lparr>json_loads := (\<lambda>s. if s = ''{\"summary\": 5}'' then Some (PDict [(''summary'', PInt 5)]) else None)\<rparr>"

text \<open>
  The configuration with a window of \<open>10^400\<close> seconds, beyond the range of floats; an
  incident whose type is the number 5; a clock that reads \<open>2^53\<close> seconds, where the floats
  are the even whole numbers, so that adding 45 gives \<open>2^53 + 44\<close>.
\<close>

definition cfg_huge_window :: config where
  "cfg_huge_window = cfg_on\<lparr>GEMINI_BACKOFF_SECONDS := 10 ^ 400\<rparr>"

definition number_incident :: pydict where
  "number_incident = [(''type'', PInt 5), (''location'', PStr ''Sector 7'')]"


text \<open>The state of a fresh process.\<close>

definition world0 :: world where
  "world0 = \<lparr>ticks = 0, gemini_backoff_until = Fin 0, requests = [],
            unit_status = UNIT_STATUS_init (\<lambda>i. 0), draws = 0\<rparr>"

text \<open>
  Fifteen decisions with the incident ids 1 to 15, the odd ones through an envelope, the
  even ones through \<open>handle_decision\<close>.
\<close>

definition fifteen_decisions :: "submission list" where
  "fifteen_decisions =
     map (\<lambda>i. if even i then ViaDecision (PStr ''SEND'') (PInt i)
              else ViaEnvelope (MessageEnvelope (Some [(''action'', PStr ''HOLD''), (''incident_id'', PInt i)])
                     (Some ''user'') None None None))
         [1, 2, 3, 4, 5, 6, 7, 8, 9, 10, 11, 12, 13, 14, 15]"

section \<open>Failure modes of the backend\<close>

text \<open>
  \<open>json.loads\<close> raises on every text that begins with \<open>[Gemini\<close>: after the bracket
  a JSON value or a closing bracket must follow, and \<open>G\<close> begins neither.
\<close>

definition json_rejects_sentinels :: "externals \<Rightarrow> bool" where
  "json_rejects_sentinels ext = (\<forall>s. startswith s ''[Gemini'' \<longrightarrow> json_loads ext s = None)"

text \<open>Every generation request raises.\<close>

definition every_call_raises :: "externals \<Rightarrow> bool" where
  "every_call_raises ext = (\<forall>n m p. \<exists>e. attempt ext n m p = Inl e)"

text \<open>
  Every generation request raises or answers with a text that is not a JSON object
  (prose, or JSON of another shape).
\<close>

definition answers_malformed :: "externals \<Rightarrow> bool" where
  "answers_malformed ext =
     (\<forall>n m p t. attempt ext n m p = Inr t \<longrightarrow> not_json_object ext t)"

text \<open>
  The backend is out of use: no key or the feature disabled, or the clock never
  reaches the backoff time, or the predicate \<open>P\<close> holds of the backend.
\<close>

definition backend_mode :: "(externals \<Rightarrow> bool) \<Rightarrow> config \<Rightarrow> externals \<Rightarrow> world \<Rightarrow> bool" where
  "backend_mode P cfg ext w =
     (\<not> configured cfg \<or> P ext \<or> (\<forall>n. \<not> reached (time_at ext n) (gemini_backoff_until w)))"

text \<open>The gate of the invoker stays closed: no key, the feature disabled, or a backoff time never reached.\<close>

definition backend_disabled :: "config \<Rightarrow> externals \<Rightarrow> world \<Rightarrow> bool" where
  "backend_disabled cfg ext w = backend_mode (\<lambda>x. False) cfg ext w"

text \<open>
  The configured window is within the range of floats: adding it to a clock reading
  does not raise.
\<close>

definition window_in_range :: "config \<Rightarrow> externals \<Rightarrow> bool" where
  "window_in_range cfg ext = (\<forall>t. float_add ext t (GEMINI_BACKOFF_SECONDS cfg) \<noteq> None)"

section \<open>Properties\<close>

subsection \<open>The decision history\<close>

lemma py_last_n_append: "py_last_n n (py_last_n n xs @ ys) = py_last_n n (xs @ ys)"
proof (cases "length xs \<le> n")
  case True
  then show ?thesis by (simp add: py_last_n_def)
next
  case False
  then have "length xs + length ys - n = (length xs - n) + length ys" by simp
  with False show ?thesis by (simp add: py_last_n_def add.commute)
qed

lemma length_py_last_n: "length (py_last_n n xs) = min n (length xs)"
  by (simp add: py_last_n_def)

lemma submit_decision:
  "submit ext (DecisionAgent n h) s w = (DecisionAgent n (py_last_n 10 (h @ [entry_of ext s w])), tick w)"
  by (cases s) (simp_all add: decision_handle_envelope_def handle_decision_def Let_def)

lemma length_entries_of: "length (entries_of ext ss w) = length ss"
  by (induction ss arbitrary: w) simp_all

lemma submit_all_decision:
  "length h \<le> 10 \<Longrightarrow>
   get_history (fst (submit_all ext (DecisionAgent n h) ss w)) = py_last_n 10 (h @ entries_of ext ss w)"
proof (induction ss arbitrary: h w)
  case Nil
  then show ?case by (simp add: py_last_n_def)
next
  case (Cons s ss)
  have "length (py_last_n 10 (h @ [entry_of ext s w])) \<le> 10"
    by (simp add: length_py_last_n)
  from Cons.IH [OF this]
  show ?case by (simp add: submit_decision py_last_n_append)
qed

text \<open>
  Claim C7. After any sequence of decisions submitted to the decision agent, through
  \<open>handle_envelope\<close> or through \<open>handle_decision\<close>, its history is the last ten of the
  entries built, in arrival order, and so has at most ten entries; after fifteen
  decisions it has exactly ten, the five oldest being gone.
\<close>

theorem decision_history_bounded:
  "get_history (fst (submit_all ext (get_decision_agent []) ss w)) = py_last_n 10 (entries_of ext ss w)
   \<and> length (get_history (fst (submit_all ext (get_decision_agent []) ss w))) \<le> 10
   \<and> (length ss = 15 \<longrightarrow>
        length (get_history (fst (submit_all ext (get_decision_agent []) ss w))) = 10
        \<and> get_history (fst (submit_all ext (get_decision_agent []) ss w)) = drop 5 (entries_of ext ss w))"
proof -
  have h: "get_history (fst (submit_all ext (get_decision_agent []) ss w)) = py_last_n 10 (entries_of ext ss w)"
    using submit_all_decision [of "[]" ext "''Decision-Agent''" ss w]
    by (simp add: get_decision_agent_def)
  show ?thesis
    unfolding h by (simp add: length_py_last_n length_entries_of) (simp add: py_last_n_def length_entries_of)
qed

theorem decision_history_bounded_witness:
  "length fifteen_decisions = 15
   \<and> length (get_history (fst (submit_all ext_down (get_decision_agent []) fifteen_decisions world0))) = 10
   \<and> map (\<lambda>e. dict_get e ''incident_id'')
        (get_history (fst (submit_all ext_down (get_decision_agent []) fifteen_decisions world0)))
      = map PInt [6, 7, 8, 9, 10, 11, 12, 13, 14, 15]"
proof -
  have l: "length fifteen_decisions = 15" by (simp add: fifteen_decisions_def)
  have e: "map (\<lambda>e. dict_get e ''incident_id'') (drop 5 (entries_of ext_down fifteen_decisions world0))
           = map PInt [6, 7, 8, 9, 10, 11, 12, 13, 14, 15]"
    by code_simp
  from decision_history_bounded [of ext_down fifteen_decisions world0] l
  have "length (get_history (fst (submit_all ext_down (get_decision_agent []) fifteen_decisions world0))) = 10"
    and "get_history (fst (submit_all ext_down (get_decision_agent []) fifteen_decisions world0))
         = drop 5 (entries_of ext_down fifteen_decisions world0)"
    by blast+
  with l e show ?thesis by metis
qed

subsection \<open>The serialized envelope\<close>

text \<open>
  Claim C9 says that \<open>to_dict\<close> holds exactly four fields. The envelope of an incident
  already serializes to more than four keys.
\<close>

theorem to_dict_four_fields_counterexample:
  "card (fst ` set (to_dict (seed_envelope test_incident))) \<noteq> 4"
  by (simp add: to_dict_def)

text \<open>
  Claim C9, amended. For every envelope, \<open>to_dict\<close> holds exactly the five keys
  \<open>content\<close>, \<open>sender\<close>, \<open>receiver\<close>, \<open>trace\<close> and \<open>context\<close>, in this order, each with the
  value of the field of that name, and no other key.
\<close>

theorem to_dict_five_fields:
  "map fst (to_dict env) = [''content'', ''sender'', ''receiver'', ''trace'', ''context'']
   \<and> map snd (to_dict env) =
       [PDict (content env), opt_str (sender env), opt_str (receiver env),
        PList (map (\<lambda>e. PDict [(''agent'', PStr (agent e)), (''message'', message e)]) (trace env)),
        PDict (ctxt env)]"
  by (simp add: to_dict_def)

subsection \<open>Notifying a dispatch\<close>

text \<open>
  Claim C10. For every unit id and incident, \<open>notify_dispatch\<close> returns a record with
  the status \<open>queued\<close>, the id and the location of the incident and a time stamp. When the
  unit id is not a key of the status map, the map is left as it was; when it is, the
  entries of all other units are left as they were and the entry of this unit becomes
  \<open>assigned\<close> with the id of the incident.
\<close>

theorem notify_dispatch_frame:
  "rec_unit_id (fst (notify_dispatch ext uid inc w)) = uid
   \<and> rec_status (fst (notify_dispatch ext uid inc w)) = ''queued''
   \<and> rec_incident_id (fst (notify_dispatch ext uid inc w)) = dict_get inc ''id''
   \<and> rec_location (fst (notify_dispatch ext uid inc w)) = dict_get inc ''location''
   \<and> rec_timestamp (fst (notify_dispatch ext uid inc w)) = isoformat ext (now ext w)
   \<and> (uid \<notin> dom (unit_status w) \<longrightarrow>
        unit_status (snd (notify_dispatch ext uid inc w)) = unit_status w)
   \<and> (uid \<in> dom (unit_status w) \<longrightarrow>
        (\<forall>u. u \<noteq> uid \<longrightarrow> unit_status (snd (notify_dispatch ext uid inc w)) u = unit_status w u)
        \<and> map_option status (unit_status (snd (notify_dispatch ext uid inc w)) uid) = Some ''assigned''
        \<and> map_option incident_id (unit_status (snd (notify_dispatch ext uid inc w)) uid)
            = Some (dict_get inc ''id''))"
  by (simp add: notify_dispatch_def Let_def tick_def)

theorem notify_dispatch_frame_witness:
  "''Ghost-9'' \<notin> dom (unit_status world0)
   \<and> unit_status (snd (notify_dispatch ext_down ''Ghost-9'' [(''id'', PStr ''inc-1'')] world0)) = unit_status world0
   \<and> ''Fire-1'' \<in> dom (unit_status world0)
   \<and> unit_status (snd (notify_dispatch ext_down ''Fire-1'' [(''id'', PStr ''inc-1'')] world0)) ''Fire-2''
       = unit_status world0 ''Fire-2''
   \<and> map_option status (unit_status (snd (notify_dispatch ext_down ''Fire-1'' [(''id'', PStr ''inc-1'')] world0)) ''Fire-1'')
       = Some ''assigned''"
proof -
  have a: "''Ghost-9'' \<notin> dom (unit_status world0)"
    by (simp add: world0_def UNIT_STATUS_init_def UNIT_REGISTRY_def dom_def)
  have b: "''Fire-1'' \<in> dom (unit_status world0)"
    by (simp add: world0_def UNIT_STATUS_init_def UNIT_REGISTRY_def dom_def)
  from a b notify_dispatch_frame [of ext_down "''Ghost-9''" "[(''id'', PStr ''inc-1'')]" world0]
    notify_dispatch_frame [of ext_down "''Fire-1''" "[(''id'', PStr ''inc-1'')]" world0]
  show ?thesis by simp
qed

subsection \<open>Arrival times and the order of the available units\<close>

lemma randint_jitter: "randint ext (- 1) 1 k \<in> {- 1, 0, 1}"
proof -
  have "rand_raw ext k mod 3 < 3" by simp
  then have "rand_raw ext k mod 3 = 0 \<or> rand_raw ext k mod 3 = 1 \<or> rand_raw ext k mod 3 = 2"
    by linarith
  then show ?thesis by (auto simp: randint_def)
qed

lemma runit_rebuild:
  "\<lparr>unit_id = unit_id u, unit_type = unit_type u, location = location u,
     capabilities = capabilities u, base_eta = base_eta u\<rparr> = (u::runit)"
  by (cases u) simp

lemma collect_candidates_spec:
  "collect_candidates ext utype st us k = Inr (cs, k') \<Longrightarrow>
     map runit.truncate cs = filter (\<lambda>u. available_in st u \<and> type_matches utype u) us
     \<and> (\<forall>c \<in> set cs. \<exists>j \<in> {- 1, 0, 1}.
           eta_minutes c = estimate_arrival_minutes (runit.truncate c) (Some (location c)) j)"
proof (induction us arbitrary: cs k k')
  case Nil
  then show ?case by simp
next
  case (Cons u us)
  show ?case
  proof (cases "st (unit_id u)")
    case None
    with Cons.prems show ?thesis by simp
  next
    case (Some s)
    show ?thesis
    proof (cases "available_in st u \<and> type_matches utype u")
      case False
      with Some Cons.prems have "collect_candidates ext utype st us k = Inr (cs, k')"
        by (auto simp: available_in_def type_matches_def split: option.splits if_splits)
      from Cons.IH [OF this] False show ?thesis by simp
    next
      case True
      with Some Cons.prems obtain cs0 where
        c0: "collect_candidates ext utype st us (Suc k) = Inr (cs0, k')" and
        cs: "cs = \<lparr>unit_id = unit_id u, unit_type = unit_type u, location = location u,
                  capabilities = capabilities u, base_eta = base_eta u,
                  eta_minutes = estimate_arrival_minutes u (Some (location u)) (randint ext (- 1) 1 k)\<rparr> # cs0"
        by (auto simp: available_in_def type_matches_def split: option.splits if_splits sum.splits)
      from Cons.IH [OF c0] True randint_jitter [of ext k] show ?thesis
        by (auto simp: cs runit.truncate_def runit_rebuild)
    qed
  qed
qed

lemma collect_candidates_total:
  "\<forall>u \<in> set us. st (unit_id u) \<noteq> None \<Longrightarrow> \<exists>cs k'. collect_candidates ext utype st us k = Inr (cs, k')"
proof (induction us arbitrary: k)
  case Nil
  then show ?case by simp
next
  case (Cons u us)
  then obtain s where s: "st (unit_id u) = Some s" by auto
  from Cons have ih: "\<And>k. \<exists>cs k'. collect_candidates ext utype st us k = Inr (cs, k')" by simp
  from ih [of k] ih [of "Suc k"] s show ?case by (auto split: option.splits)
qed

lemma py_take_is_take: "\<exists>m. py_take n xs = take m xs"
  by (auto simp: py_take_def)

lemma available_truncate [simp]: "available_in st (runit.truncate c) = available_in st c"
  by (simp add: available_in_def runit.truncate_def)

lemma type_matches_truncate [simp]: "type_matches t (runit.truncate c) = type_matches t c"
  by (simp add: type_matches_def runit.truncate_def split: option.splits)

lemma get_available_units_spec:
  assumes "get_available_units ext utype limit w = Inr (us, w')"
  shows "sorted (map eta_minutes us)"
    and "\<forall>c \<in> set us. runit.truncate c \<in> set UNIT_REGISTRY
            \<and> available_in (unit_status w) c \<and> type_matches utype c
            \<and> (\<exists>j \<in> {- 1, 0, 1}.
                 eta_minutes c = estimate_arrival_minutes (runit.truncate c) (Some (location c)) j)"
    and "limit = None \<or> limit = Some 0 \<Longrightarrow>
           mset (map runit.truncate us)
             = mset (filter (\<lambda>u. available_in (unit_status w) u \<and> type_matches utype u) UNIT_REGISTRY)"
    and "unit_status w' = unit_status w"
proof -
  from assms obtain cs k where
    cc: "collect_candidates ext utype (unit_status w) UNIT_REGISTRY (draws w) = Inr (cs, k)" and
    us: "us = (case limit of None \<Rightarrow> sort_key eta_minutes cs
               | Some n \<Rightarrow> if n \<noteq> 0 then py_take n (sort_key eta_minutes cs) else sort_key eta_minutes cs)" and
    w': "w' = w\<lparr>draws := k\<rparr>"
    by (auto simp: get_available_units_def Let_def split: sum.splits)
  note sp = collect_candidates_spec [OF cc]
  obtain m where m: "us = take m (sort_key eta_minutes cs)"
  proof (cases limit)
    case None
    with us have "us = take (length cs) (sort_key eta_minutes cs)" by simp
    then show ?thesis by (rule that)
  next
    case (Some n)
    show ?thesis
    proof (cases "n = 0")
      case True
      with Some us have "us = take (length cs) (sort_key eta_minutes cs)" by simp
      then show ?thesis by (rule that)
    next
      case False
      with Some us py_take_is_take [of n "sort_key eta_minutes cs"] show ?thesis
        by (auto intro: that)
    qed
  qed
  have "sorted (map eta_minutes (sort_key eta_minutes cs))" by (rule sorted_sort_key)
  then show "sorted (map eta_minutes us)"
    unfolding m by (simp add: take_map [symmetric] sorted_wrt_take)
  have sub: "set us \<subseteq> set cs" unfolding m using set_take_subset [of m "sort_key eta_minutes cs"] by simp
  have mem: "\<forall>c \<in> set cs. runit.truncate c \<in> set UNIT_REGISTRY
                \<and> available_in (unit_status w) c \<and> type_matches utype c"
  proof
    fix c assume "c \<in> set cs"
    then have "runit.truncate c \<in> set (map runit.truncate cs)" by simp
    with sp have "runit.truncate c \<in> set (filter (\<lambda>u. available_in (unit_status w) u \<and> type_matches utype u) UNIT_REGISTRY)"
      by simp
    then show "runit.truncate c \<in> set UNIT_REGISTRY \<and> available_in (unit_status w) c \<and> type_matches utype c"
      by auto
  qed
  from sub mem sp
  show "\<forall>c \<in> set us. runit.truncate c \<in> set UNIT_REGISTRY
            \<and> available_in (unit_status w) c \<and> type_matches utype c
            \<and> (\<exists>j \<in> {- 1, 0, 1}.
                 eta_minutes c = estimate_arrival_minutes (runit.truncate c) (Some (location c)) j)"
    by blast
  show "unit_status w' = unit_status w" by (simp add: w')
  assume "limit = None \<or> limit = Some 0"
  with us have "us = sort_key eta_minutes cs" by auto
  then have "mset (map runit.truncate us) = mset (map runit.truncate cs)" by simp
  with sp show "mset (map runit.truncate us)
             = mset (filter (\<lambda>u. available_in (unit_status w) u \<and> type_matches utype u) UNIT_REGISTRY)"
    by simp
qed

lemma get_available_units_total:
  assumes "registry_known (unit_status w)"
  shows "\<exists>us w'. get_available_units ext utype limit w = Inr (us, w')"
proof -
  from assms have "\<forall>u \<in> set UNIT_REGISTRY. unit_status w (unit_id u) \<noteq> None"
    by (simp add: registry_known_def list_all_iff)
  from collect_candidates_total [OF this, of ext utype "draws w"]
  show ?thesis by (auto simp: get_available_units_def Let_def)
qed

lemma estimate_floor:
  "estimate_arrival_minutes u loc jitter = \<lfloor>claimed_eta u loc jitter\<rfloor>"
proof -
  define m where "m = (case SECTOR_MODIFIERS (normalize_str loc) of Some m \<Rightarrow> m | None \<Rightarrow> 6)"
  have "\<lfloor>real_of_int (base_eta u) + real_of_int m / 2 + real_of_int jitter\<rfloor>
          = base_eta u + m div 2 + jitter"
  proof -
    have "real_of_int (base_eta u) + real_of_int m / 2 + real_of_int jitter
            = real_of_int (base_eta u + jitter) + real_of_int m / real_of_int 2"
      by simp
    also have "\<lfloor>\<dots>\<rfloor> = (base_eta u + jitter) + \<lfloor>real_of_int m / real_of_int 2\<rfloor>"
      by (rule int_add_floor [symmetric])
    also have "\<lfloor>real_of_int m / real_of_int 2\<rfloor> = m div 2"
      by (rule floor_divide_of_int_eq)
    finally show ?thesis by simp
  qed
  moreover have "\<lfloor>max 3 x\<rfloor> = max 3 \<lfloor>x\<rfloor>" for x :: real
    by (simp add: max_def le_floor_iff floor_le_iff)
  ultimately show ?thesis
    by (simp add: estimate_arrival_minutes_def claimed_eta_def Let_def m_def)
qed

text \<open>
  Claim C6 gives the arrival time as max(3, base_eta + sector_modifier/2 + jitter).
  For Fire-1 (base time 5) at Sector 1 (modifier 3) with the jitter 0 this is 6.5; the
  code, which halves with \<open>//\<close>, gives 6.
\<close>

theorem eta_half_counterexample:
  "real_of_int (estimate_arrival_minutes (hd UNIT_REGISTRY) (Some ''Sector 1'') 0)
     \<noteq> claimed_eta (hd UNIT_REGISTRY) (Some ''Sector 1'') 0
   \<and> estimate_arrival_minutes (hd UNIT_REGISTRY) (Some ''Sector 1'') 0 = 6
   \<and> claimed_eta (hd UNIT_REGISTRY) (Some ''Sector 1'') 0 = 13 / 2"
proof -
  have e: "estimate_arrival_minutes (hd UNIT_REGISTRY) (Some ''Sector 1'') 0 = 6" by code_simp
  have m: "SECTOR_MODIFIERS (normalize_str (Some ''Sector 1'')) = Some 3" by code_simp
  have b: "base_eta (hd UNIT_REGISTRY) = 5" by (simp add: UNIT_REGISTRY_def)
  have c: "claimed_eta (hd UNIT_REGISTRY) (Some ''Sector 1'') 0 = 13 / 2"
    by (simp add: claimed_eta_def m b)
  from e c show ?thesis by simp
qed

text \<open>
  Claim C6, amended. For every unit, location and jitter, the estimated arrival time
  is max(3, base_eta + sector_modifier/2 + jitter) rounded down to a whole number, which
  is max(3, base_eta + sector_modifier // 2 + jitter) with the whole quotient; the
  modifier is looked up in the fixed table under the normalized location and is 6 when
  the location is not in the table. The jitter the code draws is one of -1, 0 and 1.
  \<open>get_available_units\<close> returns, whenever every unit of the registry is in the status
  map, and what it returns is sorted by ascending arrival time; each unit returned is a
  unit of the registry that is available and passes the type filter, with an arrival
  time of that form; without a limit, all such units are returned.
\<close>

theorem eta_estimate_and_order:
  "estimate_arrival_minutes u loc jitter = \<lfloor>claimed_eta u loc jitter\<rfloor>
   \<and> estimate_arrival_minutes u loc jitter =
      max 3 (base_eta u + (case SECTOR_MODIFIERS (normalize_str loc) of Some m \<Rightarrow> m | None \<Rightarrow> 6) div 2 + jitter)
   \<and> randint ext (- 1) 1 k \<in> {- 1, 0, 1}
   \<and> (registry_known (unit_status w) \<longrightarrow>
        (\<exists>us w'. get_available_units ext utype limit w = Inr (us, w')))
   \<and> (get_available_units ext utype limit w = Inr (us, w') \<longrightarrow>
        sorted (map eta_minutes us)
        \<and> (\<forall>c \<in> set us. runit.truncate c \<in> set UNIT_REGISTRY
              \<and> available_in (unit_status w) c \<and> type_matches utype c
              \<and> (\<exists>j \<in> {- 1, 0, 1}.
                   eta_minutes c = estimate_arrival_minutes (runit.truncate c) (Some (location c)) j))
        \<and> (limit = None \<longrightarrow>
             mset (map runit.truncate us)
               = mset (filter (\<lambda>u. available_in (unit_status w) u \<and> type_matches utype u) UNIT_REGISTRY)))"
proof -
  have a: "estimate_arrival_minutes u loc jitter =
      max 3 (base_eta u + (case SECTOR_MODIFIERS (normalize_str loc) of Some m \<Rightarrow> m | None \<Rightarrow> 6) div 2 + jitter)"
    by (simp add: estimate_arrival_minutes_def Let_def)
  show ?thesis
    using a estimate_floor [of u loc jitter] randint_jitter [of ext k]
      get_available_units_total [of w ext utype limit]
      get_available_units_spec [of ext utype limit w us w']
    by blast
qed

theorem eta_estimate_and_order_witness:
  "registry_known (unit_status world0)
   \<and> estimate_arrival_minutes (hd UNIT_REGISTRY) (Some '' Sector 1 '') 0 = 6
   \<and> estimate_arrival_minutes (hd UNIT_REGISTRY) None (- 1) = 7
   \<and> (case get_available_units ext_down None None world0 of
        Inr (us, w') \<Rightarrow>
          sorted (map eta_minutes us)
          \<and> map (\<lambda>c. (unit_id c, eta_minutes c)) us
              = [(''Fire-1'', 8), (''Ambulance-2'', 9), (''Fire-2'', 10), (''Rescue-3'', 11)]
      | Inl e \<Rightarrow> False)"
proof -
  have rk: "registry_known (unit_status world0)" by code_simp
  note t = eta_estimate_and_order [of "hd UNIT_REGISTRY" "Some '' Sector 1 ''" 0 ext_down 0 world0 None None]
  from t rk obtain us w' where g: "get_available_units ext_down None None world0 = Inr (us, w')"
    by blast
  from t [of us w'] g have s: "sorted (map eta_minutes us)" by blast
  have e1: "estimate_arrival_minutes (hd UNIT_REGISTRY) (Some '' Sector 1 '') 0 = 6" by code_simp
  have e2: "estimate_arrival_minutes (hd UNIT_REGISTRY) None (- 1) = 7" by code_simp
  have v: "map_sum id (\<lambda>r. map (\<lambda>c. (unit_id c, eta_minutes c)) (fst r)) (get_available_units ext_down None None world0)
           = Inr [(''Fire-1'', 8), (''Ambulance-2'', 9), (''Fire-2'', 10), (''Rescue-3'', 11)]"
    by code_simp
  from rk g s e1 e2 v show ?thesis by simp
qed

subsection \<open>Scoring and selection\<close>

lemma normalize_val_str_valued:
  assumes "str_valued d"
  shows "\<exists>t. normalize_val (dict_get d k) = Inr t"
proof (cases "map_of d k")
  case None
  then show ?thesis by (simp add: dict_get_def normalize_val_def)
next
  case (Some v)
  then have "(k, v) \<in> set d" by (rule map_of_SomeD)
  with assms have "case v of PStr s \<Rightarrow> True | _ \<Rightarrow> False"
    by (auto simp: str_valued_def list_all_iff)
  then obtain s where "v = PStr s" by (cases v) simp_all
  with Some show ?thesis by (simp add: dict_get_def normalize_val_def)
qed

lemma score_unit_claimed:
  assumes "normalize_val (dict_get inc ''type'') = Inr t"
    and "normalize_val (dict_get inc ''urgency'') = Inr urg"
    and "[] \<notin> capabilities u"
  shows "score_unit u inc = Inr (claimed_score u t urg)"
  using assms by (auto simp: score_unit_def claimed_score_def)

lemma registry_capabilities: "u \<in> set UNIT_REGISTRY \<Longrightarrow> [] \<notin> capabilities u"
  by (auto simp: UNIT_REGISTRY_def)

lemma rank_units_scored:
  "\<forall>u \<in> set us. score_unit u inc = Inr (f u) \<Longrightarrow>
   rank_units us inc = Inr (map (\<lambda>u. (f u, u)) (filter (\<lambda>u. f u > 0) us))"
  by (induction us) auto

lemma insort_key_pair:
  "insort_key (\<lambda>p. - fst p) (f u, u) (map (\<lambda>u. (f u, u)) xs)
     = map (\<lambda>u. (f u, u)) (insort_key (\<lambda>u. - f u) u xs)"
  for f :: "'a \<Rightarrow> int"
  by (induction xs) auto

lemma sort_ranked_pairs:
  "sort_ranked (map (\<lambda>u. (f u, u)) xs) = map (\<lambda>u. (f u, u)) (sort_key (\<lambda>u. - f u) xs)"
  unfolding sort_ranked_def by (induction xs) (simp_all add: insort_key_pair)

lemma py_take_map: "py_take n (map g xs) = map g (py_take n xs)"
  by (simp add: py_take_def take_map)

lemma available_scores:
  assumes g: "get_available_units ext None None w = Inr (avail, w')"
    and t: "normalize_val (dict_get inc ''type'') = Inr t"
    and u: "normalize_val (dict_get inc ''urgency'') = Inr urg"
  shows "\<forall>c \<in> set avail. score_unit c inc = Inr (claimed_score c t urg)"
proof
  fix c assume "c \<in> set avail"
  with get_available_units_spec(2) [OF g] have "runit.truncate c \<in> set UNIT_REGISTRY" by blast
  from registry_capabilities [OF this] have "[] \<notin> capabilities c" by (simp add: runit.truncate_def)
  from score_unit_claimed [OF t u this] show "score_unit c inc = Inr (claimed_score c t urg)" .
qed

lemma recommend_spec:
  assumes r: "recommend_units_for_incident ext inc limit w = Inr (us, w')"
    and t: "normalize_val (dict_get inc ''type'') = Inr t"
    and u: "normalize_val (dict_get inc ''urgency'') = Inr urg"
  shows "\<exists>avail. get_available_units ext None None w = Inr (avail, w')
           \<and> (\<forall>c \<in> set avail. score_unit c inc = Inr (claimed_score c t urg))
           \<and> us = py_take limit (sort_key (\<lambda>c. - claimed_score c t urg)
                                   (filter (\<lambda>c. claimed_score c t urg > 0) avail))"
proof -
  from r obtain avail ranked where
    g: "get_available_units ext None None w = Inr (avail, w')" and
    rk: "rank_units avail inc = Inr ranked" and
    us: "us = map snd (py_take limit (sort_ranked ranked))"
    by (auto simp: recommend_units_for_incident_def split: sum.splits)
  note sc = available_scores [OF g t u]
  from rank_units_scored [OF sc] rk
  have "ranked = map (\<lambda>c. (claimed_score c t urg, c)) (filter (\<lambda>c. claimed_score c t urg > 0) avail)"
    by simp
  then have "us = py_take limit (sort_key (\<lambda>c. - claimed_score c t urg)
                                   (filter (\<lambda>c. claimed_score c t urg > 0) avail))"
    by (simp add: us sort_ranked_pairs py_take_map o_def)
  with g sc show ?thesis by blast
qed

lemma recommend_total:
  assumes "str_valued inc" and "registry_known (unit_status w)"
  shows "\<exists>us w'. recommend_units_for_incident ext inc limit w = Inr (us, w')
                  \<and> unit_status w' = unit_status w"
proof -
  from get_available_units_total [OF assms(2)] obtain avail w' where
    g: "get_available_units ext None None w = Inr (avail, w')" by blast
  from normalize_val_str_valued [OF assms(1)] obtain t urg where
    t: "normalize_val (dict_get inc ''type'') = Inr t" and
    u: "normalize_val (dict_get inc ''urgency'') = Inr urg" by blast
  from rank_units_scored [OF available_scores [OF g t u]] g get_available_units_spec(4) [OF g]
  show ?thesis by (simp add: recommend_units_for_incident_def)
qed

lemma sorted_desc_stable:
  fixes f :: "'a \<Rightarrow> int"
  shows "sorted (map (\<lambda>c. - f c) (sort_key (\<lambda>c. - f c) xs))"
    and "filter (\<lambda>c. f c = s) (sort_key (\<lambda>c. - f c) xs) = filter (\<lambda>c. f c = s) xs"
proof -
  show "sorted (map (\<lambda>c. - f c) (sort_key (\<lambda>c. - f c) xs))" by (rule sorted_sort_key)
  have "filter (\<lambda>c. - f c = - s) (sort_key (\<lambda>c. - f c) xs) = filter (\<lambda>c. - f c = - s) xs"
    by (rule sort_key_stable)
  then show "filter (\<lambda>c. f c = s) (sort_key (\<lambda>c. - f c) xs) = filter (\<lambda>c. f c = s) xs" by simp
qed

text \<open>
  Claim C5 says that units with equal scores keep registry order. With every unit
  available and no jitter, an incident of type \<open>flood\<close> and urgency \<open>high\<close> gives every
  unit the score 2; the code selects Fire-1 and Ambulance-2, registry order selects
  Fire-1 and Fire-2.
\<close>

theorem recommend_ties_registry_order_counterexample:
  "map unit_id (case recommend_units_for_incident ext_down flood_incident 2 world0 of
                  Inr (us, w') \<Rightarrow> us | Inl e \<Rightarrow> [])
     \<noteq> claimed_recommend (unit_status world0) ''flood'' ''high'' 2"
  by code_simp

text \<open>
  Claim C5, amended. For every incident whose type and urgency normalize to \<open>t\<close> and
  \<open>urg\<close>, every unit \<open>get_available_units\<close> returns scores 4 if \<open>t\<close> is one of its
  capabilities, plus 3 if \<open>t\<close> is a substring of its type, plus 2 if \<open>urg\<close> is \<open>critical\<close>
  or \<open>high\<close>. \<open>recommend_units_for_incident\<close> returns the first \<open>limit\<close> units of a
  ranking that is sorted by descending score and holds, for every score above 0,
  exactly the units of that score in the order in which \<open>get_available_units\<close> returned
  them (ascending arrival time), and no unit of a score of 0 or less. It returns whenever
  the incident has string values and every unit of the registry is in the status map.
\<close>

theorem recommend_units_ranked:
  "(str_valued inc \<and> registry_known (unit_status w) \<longrightarrow>
      (\<exists>us w'. recommend_units_for_incident ext inc limit w = Inr (us, w')))
   \<and> (recommend_units_for_incident ext inc limit w = Inr (us, w')
        \<and> normalize_val (dict_get inc ''type'') = Inr t
        \<and> normalize_val (dict_get inc ''urgency'') = Inr urg \<longrightarrow>
      (\<exists>avail ranked.
          get_available_units ext None None w = Inr (avail, w')
        \<and> (\<forall>c \<in> set avail. score_unit c inc = Inr (claimed_score c t urg))
        \<and> us = py_take limit ranked
        \<and> sorted (map (\<lambda>c. - claimed_score c t urg) ranked)
        \<and> (\<forall>s. filter (\<lambda>c. claimed_score c t urg = s) ranked
                 = (if s > 0 then filter (\<lambda>c. claimed_score c t urg = s) avail else []))))"
proof (intro conjI impI)
  assume "str_valued inc \<and> registry_known (unit_status w)"
  with recommend_total [of inc w ext limit]
  show "\<exists>us w'. recommend_units_for_incident ext inc limit w = Inr (us, w')" by blast
next
  assume a: "recommend_units_for_incident ext inc limit w = Inr (us, w')
        \<and> normalize_val (dict_get inc ''type'') = Inr t
        \<and> normalize_val (dict_get inc ''urgency'') = Inr urg"
  then obtain avail where
    g: "get_available_units ext None None w = Inr (avail, w')" and
    sc: "\<forall>c \<in> set avail. score_unit c inc = Inr (claimed_score c t urg)" and
    us: "us = py_take limit (sort_key (\<lambda>c. - claimed_score c t urg)
                                   (filter (\<lambda>c. claimed_score c t urg > 0) avail))"
    using recommend_spec [of ext inc limit w us w' t urg] by blast
  let ?f = "\<lambda>c::enriched. claimed_score c t urg"
  let ?ranked = "sort_key (\<lambda>c. - ?f c) (filter (\<lambda>c. ?f c > 0) avail)"
  have st: "\<forall>s. filter (\<lambda>c. ?f c = s) ?ranked = (if s > 0 then filter (\<lambda>c. ?f c = s) avail else [])"
  proof
    fix s
    have "filter (\<lambda>c. ?f c = s) ?ranked = filter (\<lambda>c. ?f c = s) (filter (\<lambda>c. ?f c > 0) avail)"
      by (rule sorted_desc_stable(2))
    also have "\<dots> = (if s > 0 then filter (\<lambda>c. ?f c = s) avail else [])"
      by (auto intro: filter_cong)
    finally show "filter (\<lambda>c. ?f c = s) ?ranked = (if s > 0 then filter (\<lambda>c. ?f c = s) avail else [])" .
  qed
  have so: "sorted (map (\<lambda>c. - ?f c) ?ranked)" by (rule sorted_desc_stable(1))
  from g sc us so st
  show "\<exists>avail ranked.
          get_available_units ext None None w = Inr (avail, w')
        \<and> (\<forall>c \<in> set avail. score_unit c inc = Inr (claimed_score c t urg))
        \<and> us = py_take limit ranked
        \<and> sorted (map (\<lambda>c. - claimed_score c t urg) ranked)
        \<and> (\<forall>s. filter (\<lambda>c. claimed_score c t urg = s) ranked
                 = (if s > 0 then filter (\<lambda>c. claimed_score c t urg = s) avail else []))"
    by blast
qed

theorem recommend_units_ranked_witness:
  "str_valued flood_incident \<and> registry_known (unit_status world0)
   \<and> normalize_val (dict_get flood_incident ''type'') = Inr ''flood''
   \<and> normalize_val (dict_get flood_incident ''urgency'') = Inr ''high''
   \<and> (case recommend_units_for_incident ext_down flood_incident 2 world0 of
        Inr (us, w') \<Rightarrow>
          map (\<lambda>c. (unit_id c, eta_minutes c, claimed_score c ''flood'' ''high'')) us
            = [(''Fire-1'', 8, 2), (''Ambulance-2'', 9, 2)]
          \<and> (\<exists>ranked. us = py_take 2 ranked \<and> sorted (map (\<lambda>c. - claimed_score c ''flood'' ''high'') ranked))
      | Inl e \<Rightarrow> False)"
proof -
  have a: "str_valued flood_incident" by code_simp
  have b: "registry_known (unit_status world0)" by code_simp
  have c: "normalize_val (dict_get flood_incident ''type'') = Inr ''flood''" by code_simp
  have d: "normalize_val (dict_get flood_incident ''urgency'') = Inr ''high''" by code_simp
  note t = recommend_units_ranked [of flood_incident world0 ext_down 2 _ _ "''flood''" "''high''"]
  from t a b obtain us w' where
    r: "recommend_units_for_incident ext_down flood_incident 2 world0 = Inr (us, w')" by blast
  from t [of us w'] r c d
  have e: "\<exists>ranked. us = py_take 2 ranked \<and> sorted (map (\<lambda>c. - claimed_score c ''flood'' ''high'') ranked)"
    by blast
  have v: "map_sum id (\<lambda>r. map (\<lambda>c. (unit_id c, eta_minutes c, claimed_score c ''flood'' ''high'')) (fst r))
              (recommend_units_for_incident ext_down flood_incident 2 world0)
           = Inr [(''Fire-1'', 8, 2), (''Ambulance-2'', 9, 2)]"
    by code_simp
  from a b c d r e v show ?thesis by simp
qed

subsection \<open>The model chain\<close>

lemma trip_frame:
  "trip_gemini_backoff cfg ext e w = Inr w' \<Longrightarrow>
     requests w' = requests w \<and> unit_status w' = unit_status w \<and> draws w' = draws w"
  by (auto simp: trip_gemini_backoff_def tick_def split: if_splits option.splits)

lemma trip_total:
  "window_in_range cfg ext \<Longrightarrow> \<exists>w'. trip_gemini_backoff cfg ext e w = Inr w'"
proof -
  assume "window_in_range cfg ext"
  then have "float_add ext (now ext w) (GEMINI_BACKOFF_SECONDS cfg) \<noteq> None"
    unfolding window_in_range_def by blast
  then obtain s where "float_add ext (now ext w) (GEMINI_BACKOFF_SECONDS cfg) = Some s"
    by blast
  then show ?thesis
    by (simp add: trip_gemini_backoff_def)
qed

lemma try_models_raising:
  assumes "window_in_range cfg ext"
    and "length errs = length pre"
    and "\<forall>i < length pre. attempt ext (length (requests w) + i) (pre ! i) prompt = Inl (errs ! i)"
  shows "\<exists>w1. try_models cfg ext prompt (pre @ rest) le w = try_models cfg ext prompt rest (last (le # errs)) w1
              \<and> requests w1 = requests w @ map (\<lambda>m. (m, prompt)) pre
              \<and> unit_status w1 = unit_status w \<and> draws w1 = draws w"
  using assms(2,3)
proof (induction pre arbitrary: errs le w)
  case Nil
  then show ?case by (intro exI [of _ w]) simp
next
  case (Cons m pre)
  from Cons.prems(1) obtain e errs' where errs: "errs = e # errs'" and len: "length errs' = length pre"
    by (cases errs) auto
  from Cons.prems(2) [rule_format, of 0] have g0: "attempt ext (length (requests w)) m prompt = Inl e"
    by (simp add: errs)
  from trip_total [OF assms(1), of e "w\<lparr>requests := requests w @ [(m, prompt)]\<rparr>"] obtain w2 where
    tr: "trip_gemini_backoff cfg ext e (w\<lparr>requests := requests w @ [(m, prompt)]\<rparr>) = Inr w2"
    by blast
  from trip_frame [OF tr] have rq: "requests w2 = requests w @ [(m, prompt)]"
    and us: "unit_status w2 = unit_status w" and dr: "draws w2 = draws w"
    by simp_all
  have "\<forall>i < length pre. attempt ext (length (requests w2) + i) (pre ! i) prompt = Inl (errs' ! i)"
  proof (intro allI impI)
    fix i assume "i < length pre"
    with Cons.prems(2) [rule_format, of "Suc i"] show
      "attempt ext (length (requests w2) + i) (pre ! i) prompt = Inl (errs' ! i)"
      by (simp add: errs rq)
  qed
  from Cons.IH [OF len this, of e] obtain w1 where
    "try_models cfg ext prompt (pre @ rest) e w2 = try_models cfg ext prompt rest (last (e # errs')) w1"
    "requests w1 = requests w2 @ map (\<lambda>m. (m, prompt)) pre"
    "unit_status w1 = unit_status w2" "draws w1 = draws w2"
    by blast
  with g0 tr rq us dr have "try_models cfg ext prompt ((m # pre) @ rest) le w
                  = try_models cfg ext prompt rest (last (le # errs)) w1
                \<and> requests w1 = requests w @ map (\<lambda>m. (m, prompt)) (m # pre)
                \<and> unit_status w1 = unit_status w \<and> draws w1 = draws w"
    by (simp add: errs Let_def)
  then show ?case by blast
qed

lemma gate_open:
  "configured cfg \<Longrightarrow> reached (now ext w) (gemini_backoff_until w) \<Longrightarrow>
   run_gemini cfg ext prompt chain w = try_models cfg ext prompt chain [] (tick w)"
  by (simp add: run_gemini_def gemini_available_def)

lemma gate_closed:
  "\<not> configured cfg \<or> \<not> reached (now ext w) (gemini_backoff_until w) \<Longrightarrow>
   run_gemini cfg ext prompt chain w = Inr (''[Gemini disabled]'', [], if configured cfg then tick w else w)"
  by (auto simp: run_gemini_def gemini_available_def)

lemma attempt_Inr:
  "attempt ext n m prompt = Inr t \<longleftrightarrow>
     (\<exists>r raw. generate ext n m prompt = Answers r \<and> read_text r = Inr raw \<and> t = strip raw)"
  by (auto simp: attempt_def read_response_def split: outcome.splits sum.splits)

lemma attempt_Inl:
  "attempt ext n m prompt = Inl e \<longleftrightarrow>
     generate ext n m prompt = Raises e \<or> (\<exists>r. generate ext n m prompt = Answers r \<and> read_text r = Inl e)"
  by (auto simp: attempt_def read_response_def split: outcome.splits sum.splits)

text \<open>
  Claim C2 says that the first model whose response carries non-empty text has its
  text returned. On the chain A, B, where the response of A has one part that carries
  the empty text and B answers \<open>hello\<close>, the code returns the empty string after its
  request to A and never asks B. The claim also says that after a call that raises the
  next model is attempted: with a window of \<open>10^400\<close> seconds and a first error that
  signals a rate limit, the sum raises \<open>OverflowError\<close> and the invoker is left.
\<close>

theorem first_nonempty_text_counterexample:
  "map_sum id fst (claimed_run_gemini cfg_on ext_silent_a ''prompt'' [''A'', ''B''] world0) = Inr ''hello''
   \<and> map_sum id fst (run_gemini cfg_on ext_silent_a ''prompt'' [''A'', ''B''] world0) = Inr []
   \<and> map_sum id (\<lambda>r. requests (snd (snd r)))
        (run_gemini cfg_on ext_silent_a ''prompt'' [''A'', ''B''] world0) = Inr [(''A'', ''prompt'')]
   \<and> map_sum id fst (run_gemini cfg_huge_window ext_throttled ''prompt'' [''A'', ''B''] world0)
        = Inl OverflowError"
  by code_simp

text \<open>
  Claim C2, amended. Take a configured window within the range of floats. For every
  prompt and model chain, when the availability gate passes, the invoker attempts the
  models in order with one generation request each. An attempt fails when the call
  raises or when reading the text of the response raises; the text of the exception
  becomes the last error and the next model is attempted. The first model whose attempt
  does not fail has the text of its response, stripped, returned, also when that text is
  empty; no later model is attempted and the last error is that of the model just
  before. When every attempt fails, the result is the sentinel that begins with
  \<open>[Gemini error:\<close> and holds the last error.
\<close>

theorem model_chain_order:
  "(attempt ext n m0 p0 = Inr t0 \<longleftrightarrow>
      (\<exists>r raw. generate ext n m0 p0 = Answers r \<and> read_text r = Inr raw \<and> t0 = strip raw))
   \<and> (attempt ext n m0 p0 = Inl e0 \<longleftrightarrow>
      generate ext n m0 p0 = Raises e0 \<or> (\<exists>r. generate ext n m0 p0 = Answers r \<and> read_text r = Inl e0))
   \<and> (configured cfg \<and> reached (now ext w) (gemini_backoff_until w) \<and> window_in_range cfg ext
       \<and> length errs = length pre
       \<and> (\<forall>i < length pre. attempt ext (length (requests w) + i) (pre ! i) prompt = Inl (errs ! i))
       \<longrightarrow>
         (attempt ext (length (requests w) + length pre) m prompt = Inr t \<longrightarrow>
            (\<exists>w'. run_gemini cfg ext prompt (pre @ m # post) w = Inr (t, last ([] # errs), w')
                 \<and> requests w' = requests w @ map (\<lambda>m. (m, prompt)) (pre @ [m])))
       \<and> (\<exists>w'. run_gemini cfg ext prompt pre w
                   = Inr (''[Gemini error: ''
                            @ (if last ([] # errs) \<noteq> [] then last ([] # errs) else ''unavailable'') @ '']'',
                          last ([] # errs), w')
               \<and> requests w' = requests w @ map (\<lambda>m. (m, prompt)) pre))"
proof (intro impI conjI)
  show "attempt ext n m0 p0 = Inr t0 \<longleftrightarrow>
      (\<exists>r raw. generate ext n m0 p0 = Answers r \<and> read_text r = Inr raw \<and> t0 = strip raw)"
    by (rule attempt_Inr)
  show "attempt ext n m0 p0 = Inl e0 \<longleftrightarrow>
      generate ext n m0 p0 = Raises e0 \<or> (\<exists>r. generate ext n m0 p0 = Answers r \<and> read_text r = Inl e0)"
    by (rule attempt_Inl)
next
  assume a: "configured cfg \<and> reached (now ext w) (gemini_backoff_until w) \<and> window_in_range cfg ext
       \<and> length errs = length pre
       \<and> (\<forall>i < length pre. attempt ext (length (requests w) + i) (pre ! i) prompt = Inl (errs ! i))"
  then have run: "\<And>chain. run_gemini cfg ext prompt chain w = try_models cfg ext prompt chain [] (tick w)"
    by (simp add: gate_open)
  from a have wr: "window_in_range cfg ext" and len: "length errs = length pre" and
    gen: "\<forall>i < length pre. attempt ext (length (requests (tick w)) + i) (pre ! i) prompt = Inl (errs ! i)"
    by (simp_all add: tick_def)
  {
    assume g: "attempt ext (length (requests w) + length pre) m prompt = Inr t"
    from try_models_raising [OF wr len gen, of "m # post" "[]"] obtain w1 where
      t: "try_models cfg ext prompt (pre @ m # post) [] (tick w)
            = try_models cfg ext prompt (m # post) (last ([] # errs)) w1" and
      rq: "requests w1 = requests (tick w) @ map (\<lambda>m. (m, prompt)) pre"
      by blast
    from g rq have "attempt ext (length (requests w1)) m prompt = Inr t"
      by (simp add: tick_def)
    with t rq show "\<exists>w'. run_gemini cfg ext prompt (pre @ m # post) w = Inr (t, last ([] # errs), w')
             \<and> requests w' = requests w @ map (\<lambda>m. (m, prompt)) (pre @ [m])"
      by (simp add: run tick_def)
  }
  from try_models_raising [OF wr len gen, of "[]" "[]"] obtain w1 where
    t: "try_models cfg ext prompt pre [] (tick w) = try_models cfg ext prompt [] (last ([] # errs)) w1" and
    rq: "requests w1 = requests (tick w) @ map (\<lambda>m. (m, prompt)) pre"
    by auto
  then show "\<exists>w'. run_gemini cfg ext prompt pre w
                   = Inr (''[Gemini error: ''
                            @ (if last ([] # errs) \<noteq> [] then last ([] # errs) else ''unavailable'') @ '']'',
                          last ([] # errs), w')
               \<and> requests w' = requests w @ map (\<lambda>m. (m, prompt)) pre"
    by (simp add: run error_sentinel_def tick_def)
qed

theorem model_chain_order_witness:
  "configured cfg_on \<and> reached (now ext_abc world0) (gemini_backoff_until world0)
   \<and> window_in_range cfg_on ext_abc
   \<and> attempt ext_abc 0 ''A'' ''prompt'' = Inl ''A is overloaded''
   \<and> attempt ext_abc 1 ''B'' ''prompt'' = Inl ''B timed out''
   \<and> attempt ext_abc 2 ''C'' ''prompt'' = Inr ''text of C''
   \<and> (\<exists>w'. run_gemini cfg_on ext_abc ''prompt'' [''A'', ''B'', ''C'', ''D''] world0
              = Inr (''text of C'', ''B timed out'', w')
          \<and> requests w' = [(''A'', ''prompt''), (''B'', ''prompt''), (''C'', ''prompt'')])
   \<and> (\<exists>w'. run_gemini cfg_on ext_abc ''prompt'' [''A'', ''B''] world0
              = Inr (''[Gemini error: B timed out]'', ''B timed out'', w'))
   \<and> attempt ext_no_candidate 0 ''A'' ''prompt'' = Inl ''response.text requires a valid Part''
   \<and> (\<exists>w'. run_gemini cfg_on ext_no_candidate ''prompt'' [''A'', ''B''] world0
              = Inr (''hello'', ''response.text requires a valid Part'', w')
          \<and> requests w' = [(''A'', ''prompt''), (''B'', ''prompt'')])"
proof -
  have c: "configured cfg_on" by code_simp
  have b: "reached (now ext_abc world0) (gemini_backoff_until world0)" by code_simp
  have b': "reached (now ext_no_candidate world0) (gemini_backoff_until world0)" by code_simp
  have s: "GEMINI_BACKOFF_SECONDS cfg_on = 45" by code_simp
  have wr: "window_in_range cfg_on ext_abc"
    by (simp add: window_in_range_def s ext_abc_def ext_with_def)
  have wr': "window_in_range cfg_on ext_no_candidate"
    by (simp add: window_in_range_def s ext_no_candidate_def ext_with_def)
  have ga: "attempt ext_abc 0 ''A'' ''prompt'' = Inl ''A is overloaded''" by code_simp
  have gb: "attempt ext_abc 1 ''B'' ''prompt'' = Inl ''B timed out''" by code_simp
  have gc: "attempt ext_abc 2 ''C'' ''prompt'' = Inr ''text of C''" by code_simp
  have na: "attempt ext_no_candidate 0 ''A'' ''prompt'' = Inl ''response.text requires a valid Part''"
    by code_simp
  have rq: "requests world0 = []" by (simp add: world0_def)
  have gc': "attempt ext_abc (length (requests world0) + length [''A'', ''B'']) ''C'' ''prompt''
               = Inr ''text of C''"
    by code_simp
  have nb': "attempt ext_no_candidate (length (requests world0) + length [''A'']) ''B'' ''prompt''
               = Inr ''hello''"
    by code_simp
  have len: "length [''A is overloaded'', ''B timed out''] = length [''A'', ''B'']" by simp
  have len': "length [''response.text requires a valid Part''] = length [''A'']" by simp
  have h: "\<forall>i < length [''A'', ''B'']. attempt ext_abc (length (requests world0) + i) ([''A'', ''B''] ! i) ''prompt''
             = Inl ([''A is overloaded'', ''B timed out''] ! i)"
    using ga gb by (simp add: rq less_Suc_eq)
  have h': "\<forall>i < length [''A'']. attempt ext_no_candidate (length (requests world0) + i) ([''A''] ! i) ''prompt''
             = Inl ([''response.text requires a valid Part''] ! i)"
    using na by (simp add: rq)
  from model_chain_order [of ext_abc _ _ _ _ _ cfg_on world0 "[''A is overloaded'', ''B timed out'']"
      "[''A'', ''B'']" "''prompt''" "''C''" "''text of C''" "[''D'']"]
    c b wr len h gc'
  obtain w1 w2 where
    r1: "run_gemini cfg_on ext_abc ''prompt'' ([''A'', ''B''] @ ''C'' # [''D'']) world0
           = Inr (''text of C'', last ([] # [''A is overloaded'', ''B timed out'']), w1)" and
    q1: "requests w1 = requests world0 @ map (\<lambda>m. (m, ''prompt'')) ([''A'', ''B''] @ [''C''])" and
    r2: "run_gemini cfg_on ext_abc ''prompt'' [''A'', ''B''] world0
           = Inr (''[Gemini error: '' @ (if last ([] # [''A is overloaded'', ''B timed out'']) \<noteq> []
                     then last ([] # [''A is overloaded'', ''B timed out'']) else ''unavailable'') @ '']'',
              last ([] # [''A is overloaded'', ''B timed out'']), w2)"
    by blast
  from model_chain_order [of ext_no_candidate _ _ _ _ _ cfg_on world0 "[''response.text requires a valid Part'']"
      "[''A'']" "''prompt''" "''B''" "''hello''" "[]"]
    c b' wr' len' h' nb'
  obtain w3 where
    r3: "run_gemini cfg_on ext_no_candidate ''prompt'' ([''A''] @ ''B'' # []) world0
           = Inr (''hello'', last ([] # [''response.text requires a valid Part'']), w3)" and
    q3: "requests w3 = requests world0 @ map (\<lambda>m. (m, ''prompt'')) ([''A''] @ [''B''])"
    by blast
  from r1 q1 r2 r3 q3 rq c b wr ga gb gc na show ?thesis by simp
qed

subsection \<open>Backoff\<close>


lemma try_models_total:
  assumes "window_in_range cfg ext"
  shows "\<exists>t le' w'. try_models cfg ext prompt chain le w0 = Inr (t, le', w')"
proof (induction chain arbitrary: le w0)
  case Nil
  show ?case by simp
next
  case (Cons x xs)
  let ?w1 = "w0\<lparr>requests := requests w0 @ [(x, prompt)]\<rparr>"
  show ?case
  proof (cases "attempt ext (length (requests w0)) x prompt")
    case (Inr t')
    then show ?thesis by (simp add: Let_def)
  next
    case (Inl e')
    from trip_total [OF assms, of e' ?w1] obtain w2 where
      "trip_gemini_backoff cfg ext e' ?w1 = Inr w2" by blast
    with Inl Cons.IH [of e' w2] show ?thesis by (simp add: Let_def)
  qed
qed




subsection \<open>Dictionaries, stripping, sentinels\<close>

lemma map_of_dict_set: "map_of (dict_set d k v) k' = (if k' = k then Some v else map_of d k')"
  by (induction d) auto

lemma not_space_a: "\<not> py_isspace (CHR ''a'')"
  by (simp add: py_isspace_def)

lemma strip_nonempty:
  assumes "c \<in> set s" and "\<not> py_isspace c"
  shows "strip s \<noteq> []"
proof -
  from assms have "dropWhile py_isspace s \<noteq> []" by (auto simp: dropWhile_eq_Nil_conv)
  then have "\<not> py_isspace (hd (dropWhile py_isspace s))" by (rule hd_dropWhile)
  moreover from \<open>dropWhile py_isspace s \<noteq> []\<close>
  have "hd (dropWhile py_isspace s) \<in> set (rev (dropWhile py_isspace s))" by simp
  ultimately have "dropWhile py_isspace (rev (dropWhile py_isspace s)) \<noteq> []"
    by (auto simp: dropWhile_eq_Nil_conv)
  then show ?thesis by (simp add: strip_def)
qed

lemma sentinel_disabled: "startswith ''[Gemini disabled]'' ''[Gemini''"
  by (simp add: startswith_def)

lemma sentinel_error: "startswith (error_sentinel e) ''[Gemini''"
  by (simp add: startswith_def error_sentinel_def)

subsection \<open>The planner returns\<close>

lemma generate_incident_brief_nonempty: "generate_incident_brief ext inc \<noteq> []"
proof -
  have "CHR ''a'' \<in> set (py_str ext (dict_get_default inc ''type'' (PStr ''Incident'')) @ '' at ''
          @ py_str ext (dict_get_default inc ''location'' (PStr ''unknown area'')) @ '' - urgency ''
          @ py_str ext (dict_get_default inc ''urgency'' (PStr ''CRITICAL'')) @ ''.'' @ x)" for x
    by simp
  then show ?thesis
    unfolding generate_incident_brief_def Let_def
    by (intro strip_nonempty [OF _ not_space_a])
qed

lemma recommend_frame:
  assumes "recommend_units_for_incident ext inc limit w = Inr (us, w')"
  shows "\<exists>k. w' = w\<lparr>draws := k\<rparr>"
  using assms
  by (auto simp: recommend_units_for_incident_def get_available_units_def Let_def split: sum.splits)

lemma normalizable_normalize: "normalizable v \<Longrightarrow> \<exists>t. normalize_val v = Inr t"
  by (cases v) (simp_all add: normalizable_def normalize_val_def)

lemma str_valued_scorable:
  assumes "str_valued d"
  shows "scorable d"
proof -
  have "normalizable (dict_get d k)" for k
  proof (cases "map_of d k")
    case None
    then show ?thesis by (simp add: dict_get_def normalizable_def)
  next
    case (Some v)
    then have "(k, v) \<in> set d" by (rule map_of_SomeD)
    with assms have "case v of PStr s \<Rightarrow> True | _ \<Rightarrow> False"
      by (auto simp: str_valued_def list_all_iff)
    then obtain s where "v = PStr s" by (cases v) simp_all
    with Some show ?thesis by (simp add: dict_get_def normalizable_def)
  qed
  then show ?thesis by (simp add: scorable_def)
qed

lemma recommend_returns:
  assumes h: "scorable inc \<or> no_unit_available (unit_status w)"
    and rk: "registry_known (unit_status w)"
  shows "\<exists>us w'. recommend_units_for_incident ext inc limit w = Inr (us, w')
                  \<and> unit_status w' = unit_status w"
proof -
  from get_available_units_total [OF rk] obtain avail w' where
    g: "get_available_units ext None None w = Inr (avail, w')" by blast
  note sp = get_available_units_spec [OF g]
  show ?thesis
  proof (cases "scorable inc")
    case True
    then obtain t urg where
      t: "normalize_val (dict_get inc ''type'') = Inr t" and
      u: "normalize_val (dict_get inc ''urgency'') = Inr urg"
      using normalizable_normalize unfolding scorable_def by blast
    from rank_units_scored [OF available_scores [OF g t u]] g sp(4)
    show ?thesis by (simp add: recommend_units_for_incident_def)
  next
    case False
    with h have n: "\<forall>u \<in> set UNIT_REGISTRY. \<not> available_in (unit_status w) u"
      by (simp add: no_unit_available_def list_all_iff)
    have "avail = []"
    proof (cases avail)
      case Nil
      then show ?thesis .
    next
      case (Cons c cs)
      with sp(2) have "runit.truncate c \<in> set UNIT_REGISTRY" and "available_in (unit_status w) c"
        by simp_all
      with n have False by (metis available_truncate)
      then show ?thesis ..
    qed
    with g sp(4) show ?thesis by (simp add: recommend_units_for_incident_def)
  qed
qed

lemma plan_relief_response_total:
  assumes "scorable inc \<or> no_unit_available (unit_status w)" and "registry_known (unit_status w)"
  shows "\<exists>p k. plan_relief_response ext inc limit w = Inr (p, w\<lparr>draws := k\<rparr>)
               \<and> summary p \<noteq> [] \<and> recommendation p \<noteq> [] \<and> resource_summary p \<noteq> []"
proof -
  from recommend_returns [OF assms, of ext limit] obtain us w' where
    r: "recommend_units_for_incident ext inc limit w = Inr (us, w')" by blast
  from recommend_frame [OF r] obtain k where k: "w' = w\<lparr>draws := k\<rparr>" by blast
  have "\<exists>p. plan_relief_response ext inc limit w = Inr (p, w\<lparr>draws := k\<rparr>)
               \<and> summary p \<noteq> [] \<and> recommendation p \<noteq> [] \<and> resource_summary p \<noteq> []"
    using r k generate_incident_brief_nonempty [of ext inc]
    by (cases us) (simp_all add: plan_relief_response_def Let_def)
  then show ?thesis by blast
qed

subsection \<open>What the invoker returns\<close>

lemma try_models_cases:
  "try_models cfg ext prompt chain le w = Inr (t, le', w') \<Longrightarrow>
     unit_status w' = unit_status w \<and> draws w' = draws w
     \<and> (t = error_sentinel le' \<or> (\<exists>n m. m \<in> set chain \<and> attempt ext n m prompt = Inr t))"
proof (induction chain arbitrary: le w)
  case Nil
  then show ?case by auto
next
  case (Cons m ms)
  let ?w1 = "w\<lparr>requests := requests w @ [(m, prompt)]\<rparr>"
  show ?case
  proof (cases "attempt ext (length (requests w)) m prompt")
    case (Inr t')
    with Cons.prems show ?thesis by (auto simp: Let_def)
  next
    case (Inl e)
    show ?thesis
    proof (cases "trip_gemini_backoff cfg ext e ?w1")
      case (Inl err)
      with \<open>attempt ext (length (requests w)) m prompt = Inl e\<close> Cons.prems show ?thesis
        by (simp add: Let_def)
    next
      case (Inr w2)
      with \<open>attempt ext (length (requests w)) m prompt = Inl e\<close> Cons.prems
      have "try_models cfg ext prompt ms e w2 = Inr (t, le', w')" by (simp add: Let_def)
      from Cons.IH [OF this] trip_frame [OF Inr] show ?thesis by auto
    qed
  qed
qed

lemma run_gemini_cases:
  assumes "run_gemini cfg ext prompt chain w = Inr (t, le, w')"
  shows "unit_status w' = unit_status w \<and> draws w' = draws w
     \<and> ((t = ''[Gemini disabled]'' \<and> gemini_backoff_until w' = gemini_backoff_until w
          \<and> (\<not> configured cfg \<or> \<not> reached (now ext w) (gemini_backoff_until w)))
        \<or> (configured cfg \<and> reached (now ext w) (gemini_backoff_until w)
            \<and> (t = error_sentinel le \<or> (\<exists>n m. m \<in> set chain \<and> attempt ext n m prompt = Inr t))))"
proof (cases "configured cfg \<and> reached (now ext w) (gemini_backoff_until w)")
  case True
  with assms have "try_models cfg ext prompt chain [] (tick w) = Inr (t, le, w')"
    by (simp add: gate_open)
  from try_models_cases [OF this] True show ?thesis by (simp add: tick_def)
next
  case False
  then have "\<not> configured cfg \<or> \<not> reached (now ext w) (gemini_backoff_until w)" by auto
  from gate_closed [OF this, of prompt chain] assms False show ?thesis
    by (auto simp: tick_def)
qed

text \<open>
  The invoker returns when the window is within the range of floats, and when its gate
  is closed.
\<close>

lemma run_gemini_total:
  assumes "window_in_range cfg ext \<or> backend_disabled cfg ext w"
  shows "\<exists>t le w'. run_gemini cfg ext prompt chain w = Inr (t, le, w')"
proof (cases "configured cfg \<and> reached (now ext w) (gemini_backoff_until w)")
  case True
  then have "\<not> backend_disabled cfg ext w"
    by (auto simp: backend_disabled_def backend_mode_def now_def)
  with assms have "window_in_range cfg ext" by simp
  from try_models_total [OF this, of prompt chain "[]" "tick w"] True show ?thesis
    by (simp add: gate_open)
next
  case False
  then have "\<not> configured cfg \<or> \<not> reached (now ext w) (gemini_backoff_until w)" by auto
  from gate_closed [OF this, of prompt chain] show ?thesis by simp
qed

text \<open>
  In a failure mode the invoker's answer is not a JSON object, the mode goes on, and
  when every call raises the answer is a sentinel.
\<close>

lemma run_gemini_mode:
  assumes r: "run_gemini cfg ext prompt chain w = Inr (t, le, w')"
    and m: "backend_mode P cfg ext w"
  shows "backend_mode P cfg ext w'"
    and "P = answers_malformed \<Longrightarrow> json_rejects_sentinels ext \<Longrightarrow> not_json_object ext t"
    and "P = every_call_raises \<Longrightarrow> startswith t ''[Gemini''"
proof -
  note c = run_gemini_cases [OF r]
  show "backend_mode P cfg ext w'"
  proof (cases "\<not> configured cfg \<or> P ext")
    case True
    then show ?thesis by (auto simp: backend_mode_def)
  next
    case False
    with m have b: "\<forall>n. \<not> reached (time_at ext n) (gemini_backoff_until w)"
      by (simp add: backend_mode_def)
    then have "\<not> reached (now ext w) (gemini_backoff_until w)" by (simp add: now_def)
    with c have "gemini_backoff_until w' = gemini_backoff_until w" by auto
    with b show ?thesis by (simp add: backend_mode_def)
  qed
  have closed: "t = ''[Gemini disabled]''" if "\<not> P ext"
  proof -
    from m that have "\<not> configured cfg \<or> \<not> reached (now ext w) (gemini_backoff_until w)"
      by (auto simp: backend_mode_def now_def)
    with c show ?thesis by auto
  qed
  {
    assume p: "P = answers_malformed" and j: "json_rejects_sentinels ext"
    have s: "not_json_object ext x" if "startswith x ''[Gemini''" for x
      using j that by (simp add: json_rejects_sentinels_def not_json_object_def)
    show "not_json_object ext t"
    proof (cases "P ext")
      case False
      from closed [OF this] s [OF sentinel_disabled] show ?thesis by simp
    next
      case True
      with p have a: "\<And>n m p t. attempt ext n m p = Inr t \<Longrightarrow> not_json_object ext t"
        by (simp add: answers_malformed_def)
      from c s [OF sentinel_disabled] s [OF sentinel_error] a show ?thesis by auto
    qed
  }
  {
    assume p: "P = every_call_raises"
    show "startswith t ''[Gemini''"
    proof (cases "P ext")
      case False
      from closed [OF this] sentinel_disabled show ?thesis by simp
    next
      case True
      with p have "\<And>n m p t. attempt ext n m p \<noteq> Inr t"
        by (auto simp: every_call_raises_def) (metis sum.distinct(1))
      with c sentinel_disabled sentinel_error show ?thesis by auto
    qed
  }
qed

lemma run_gemini_disabled:
  assumes r: "run_gemini cfg ext prompt chain w = Inr (t, le, w')"
    and m: "backend_disabled cfg ext w"
  shows "backend_disabled cfg ext w'"
  using run_gemini_mode(1) [OF r, of "\<lambda>x. False"] m by (simp add: backend_disabled_def)

lemma mode_draws [simp]: "backend_mode P cfg ext (w\<lparr>draws := k\<rparr>) = backend_mode P cfg ext w"
  by (simp add: backend_mode_def)

lemma disabled_draws [simp]: "backend_disabled cfg ext (w\<lparr>draws := k\<rparr>) = backend_disabled cfg ext w"
  by (simp add: backend_disabled_def)

lemma raises_is_malformed:
  "backend_mode every_call_raises cfg ext w \<Longrightarrow> backend_mode answers_malformed cfg ext w"
proof -
  have "answers_malformed ext" if "every_call_raises ext"
    unfolding answers_malformed_def
  proof (intro allI impI)
    fix n m p t assume "attempt ext n m p = Inr t"
    moreover from that obtain e where "attempt ext n m p = Inl e"
      unfolding every_call_raises_def by blast
    ultimately show "not_json_object ext t" by simp
  qed
  then show "backend_mode every_call_raises cfg ext w \<Longrightarrow> backend_mode answers_malformed cfg ext w"
    by (auto simp: backend_mode_def)
qed

subsection \<open>The agents in a failure mode\<close>

lemma parse_plan_malformed: "not_json_object ext t \<Longrightarrow> parse_plan ext t = (PStr t, PStr t)"
  by (auto simp: not_json_object_def parse_plan_def split: option.splits pyval.splits)

lemma parse_resources_malformed: "not_json_object ext t \<Longrightarrow> parse_resources ext t = (PList [], PStr t)"
  by (auto simp: not_json_object_def parse_resources_def split: option.splits pyval.splits)

lemma needs_fallback_str: "needs_fallback (PStr t) = Inr (t = [] \<or> startswith t ''[Gemini'')"
  by (simp add: needs_fallback_def)

lemma plan_fallback_total:
  assumes "scorable inc \<or> no_unit_available (unit_status w)" and "registry_known (unit_status w)"
  shows "\<exists>p k. plan_fallback ext (PDict inc) w = Inr (p, w\<lparr>draws := k\<rparr>)
               \<and> summary p \<noteq> [] \<and> recommendation p \<noteq> [] \<and> resource_summary p \<noteq> []"
  using plan_relief_response_total [OF assms, of ext 2] by (simp add: plan_fallback_def)

lemma plan_dispatch_failure_mode:
  assumes sv: "scorable inc \<or> no_unit_available (unit_status w)"
    and rk: "registry_known (unit_status w)"
    and j: "json_rejects_sentinels ext"
    and wr: "window_in_range cfg ext \<or> backend_disabled cfg ext w"
    and m: "backend_mode answers_malformed cfg ext w"
  shows "\<exists>s r w'. plan_dispatch cfg ext (PDict inc) w = Inr ((PStr s, PStr r), w')
            \<and> s \<noteq> [] \<and> r \<noteq> [] \<and> unit_status w' = unit_status w
            \<and> (\<forall>P. backend_mode P cfg ext w \<longrightarrow> backend_mode P cfg ext w')"
proof -
  from run_gemini_total [OF wr] obtain t le w1 where
    r: "run_gemini cfg ext (dispatch_prompt ext (PDict inc)) (DISPATCH_MODEL_CHAIN cfg) w = Inr (t, le, w1)"
    by blast
  from run_gemini_cases [OF r] have us: "unit_status w1 = unit_status w" by simp
  have md: "\<forall>P. backend_mode P cfg ext w \<longrightarrow> backend_mode P cfg ext w1"
    using run_gemini_mode(1) [OF r] by blast
  from run_gemini_mode(2) [OF r m refl j] have pp: "parse_plan ext t = (PStr t, PStr t)"
    by (rule parse_plan_malformed)
  show ?thesis
  proof (cases "t = [] \<or> startswith t ''[Gemini''")
    case False
    with r pp us md show ?thesis
      by (simp add: plan_dispatch_def needs_fallback_str)
  next
    case True
    from rk us have rk1: "registry_known (unit_status w1)" by simp
    from sv us have sv1: "scorable inc \<or> no_unit_available (unit_status w1)" by simp
    from plan_fallback_total [OF sv1 rk1, of ext] obtain p k where
      "plan_fallback ext (PDict inc) w1 = Inr (p, w1\<lparr>draws := k\<rparr>)"
      "summary p \<noteq> []" "recommendation p \<noteq> []"
      by blast
    with True r pp us md show ?thesis
      by (simp add: plan_dispatch_def needs_fallback_str)
  qed
qed

lemma dispatch_failure_mode:
  assumes i: "map_of (content env) ''incident'' = Some (PDict inc)"
    and sv: "scorable inc \<or> no_unit_available (unit_status w)"
    and rk: "registry_known (unit_status w)"
    and j: "json_rejects_sentinels ext"
    and wr: "window_in_range cfg ext \<or> backend_disabled cfg ext w"
    and m: "backend_mode answers_malformed cfg ext w"
  shows "\<exists>env' a' sess' w' s r.
            dispatch_handle_envelope cfg ext name k env sess w = Inr (env', a', sess', w')
          \<and> content env' = dict_set (dict_set (dict_set (content env) ''incident'' (PDict inc))
                                ''summary'' (PStr s)) ''recommendation'' (PStr r)
          \<and> s \<noteq> [] \<and> r \<noteq> [] \<and> unit_status w' = unit_status w
          \<and> (\<forall>P. backend_mode P cfg ext w \<longrightarrow> backend_mode P cfg ext w')"
proof -
  from i have inc: "dict_get_default (content env) ''incident'' (PDict (content env)) = PDict inc"
    by (simp add: dict_get_default_def)
  from plan_dispatch_failure_mode [OF sv rk j wr m] obtain s r w' where
    "plan_dispatch cfg ext (PDict inc) w = Inr ((PStr s, PStr r), w')"
    "s \<noteq> []" "r \<noteq> []" "unit_status w' = unit_status w"
    "\<forall>P. backend_mode P cfg ext w \<longrightarrow> backend_mode P cfg ext w'"
    by blast
  then have "\<exists>env' a' sess'.
            dispatch_handle_envelope cfg ext name k env sess w = Inr (env', a', sess', w')
          \<and> content env' = dict_set (dict_set (dict_set (content env) ''incident'' (PDict inc))
                                ''summary'' (PStr s)) ''recommendation'' (PStr r)
          \<and> s \<noteq> [] \<and> r \<noteq> [] \<and> unit_status w' = unit_status w
          \<and> (\<forall>P. backend_mode P cfg ext w \<longrightarrow> backend_mode P cfg ext w')"
    by (simp add: dispatch_handle_envelope_def inc Let_def add_trace_def)
  then show ?thesis by blast
qed

lemma resource_failure_mode:
  assumes i: "map_of (content env) ''incident'' = Some (PDict inc)"
    and sv: "scorable inc \<or> no_unit_available (unit_status w)"
    and rk: "registry_known (unit_status w)"
    and j: "json_rejects_sentinels ext"
    and wr: "window_in_range cfg ext \<or> backend_disabled cfg ext w"
    and m: "backend_mode answers_malformed cfg ext w"
  shows "\<exists>env' a' sess' w' ids rs.
            resource_handle_envelope cfg ext name k env sess w = Inr (env', a', sess', w')
          \<and> content env' = dict_set (dict_set (content env) ''resources'' (PList (map PStr ids)))
                                ''resource_summary'' (PStr rs)
          \<and> rs \<noteq> [] \<and> unit_status w' = unit_status w
          \<and> (\<forall>P. backend_mode P cfg ext w \<longrightarrow> backend_mode P cfg ext w')"
proof -
  from i have inc: "dict_get_default (content env) ''incident'' (PDict (content env)) = PDict inc"
    by (simp add: dict_get_default_def)
  from run_gemini_total [OF wr] obtain t le w1 where
    r: "run_gemini cfg ext (resource_prompt ext (PDict inc)) (RESOURCE_MODEL_CHAIN cfg) w = Inr (t, le, w1)"
    by blast
  from run_gemini_cases [OF r] have us: "unit_status w1 = unit_status w" by simp
  have md: "\<forall>P. backend_mode P cfg ext w \<longrightarrow> backend_mode P cfg ext w1"
    using run_gemini_mode(1) [OF r] by blast
  from run_gemini_mode(2) [OF r m refl j] have pp: "parse_resources ext t = (PList [], PStr t)"
    by (rule parse_resources_malformed)
  from rk us have rk1: "registry_known (unit_status w1)" by simp
  from sv us have sv1: "scorable inc \<or> no_unit_available (unit_status w1)" by simp
  from plan_fallback_total [OF sv1 rk1, of ext] obtain p k' where
    "plan_fallback ext (PDict inc) w1 = Inr (p, w1\<lparr>draws := k'\<rparr>)" "resource_summary p \<noteq> []"
    by blast
  with r pp us md have "\<exists>env' a' sess'.
            resource_handle_envelope cfg ext name k env sess w = Inr (env', a', sess', w1\<lparr>draws := k'\<rparr>)
          \<and> content env' = dict_set (dict_set (content env) ''resources'' (PList (map PStr (resources p))))
                                ''resource_summary'' (PStr (resource_summary p))
          \<and> resource_summary p \<noteq> [] \<and> unit_status (w1\<lparr>draws := k'\<rparr>) = unit_status w
          \<and> (\<forall>P. backend_mode P cfg ext w \<longrightarrow> backend_mode P cfg ext (w1\<lparr>draws := k'\<rparr>))"
    by (simp add: resource_handle_envelope_def inc Let_def add_trace_def resources_unusable_def)
  then show ?thesis by blast
qed

lemma format_display_alert_short:
  "\<exists>a. format_display_alert ext s r (PDict inc) u = Inr a \<and> length a \<le> 60"
  by (cases "inc = []") (simp_all add: format_display_alert_def py_or_def Let_def)

text \<open>
  The display summary is the alert of at most 60 characters when the invoker's answer
  begins with \<open>[Gemini\<close>, and the answer of a model, stripped, otherwise.
\<close>

lemma summary_always:
  assumes i: "map_of (content env) ''incident'' = Some (PDict inc)"
    and wr: "window_in_range cfg ext \<or> backend_disabled cfg ext w"
  shows "\<exists>env' a' sess' w' d.
            summary_handle_envelope cfg ext name env sess w = Inr (env', a', sess', w')
          \<and> content env' = dict_set (content env) ''display_summary'' (PStr d)
          \<and> (length d \<le> 60
              \<or> (\<exists>n m p t. attempt ext n m p = Inr t \<and> \<not> startswith t ''[Gemini'' \<and> d = strip t))
          \<and> (backend_mode every_call_raises cfg ext w \<longrightarrow> length d \<le> 60)"
proof -
  from i have inc: "dict_get_default (content env) ''incident'' (PDict []) = PDict inc"
    by (simp add: dict_get_default_def)
  let ?s = "dict_get_default (content env) ''summary'' (PStr [])"
  let ?r = "dict_get_default (content env) ''recommendation'' (PStr [])"
  let ?u = "dict_get_default (content env) ''urgency'' (PStr ''CRITICAL'')"
  from run_gemini_total [OF wr] obtain t le w1 where
    r: "run_gemini cfg ext (summary_prompt ext ?s ?r ?u) (SUMMARY_MODEL_CHAIN cfg) w = Inr (t, le, w1)"
    by blast
  from format_display_alert_short [of ext ?s ?r inc ?u] obtain a where
    a: "format_display_alert ext ?s ?r (PDict inc) ?u = Inr a" "length a \<le> 60" by blast
  show ?thesis
  proof (cases "startswith t ''[Gemini''")
    case True
    with r a have "\<exists>env' a' sess' w'.
            summary_handle_envelope cfg ext name env sess w = Inr (env', a', sess', w')
          \<and> content env' = dict_set (content env) ''display_summary'' (PStr a)
          \<and> (length a \<le> 60
              \<or> (\<exists>n m p t. attempt ext n m p = Inr t \<and> \<not> startswith t ''[Gemini'' \<and> a = strip t))
          \<and> (backend_mode every_call_raises cfg ext w \<longrightarrow> length a \<le> 60)"
      by (simp add: summary_handle_envelope_def summarize_for_display_def inc Let_def add_trace_def)
    then show ?thesis by blast
  next
    case False
    with run_gemini_mode(3) [OF r _ refl] have nm: "\<not> backend_mode every_call_raises cfg ext w" by blast
    from False run_gemini_cases [OF r] sentinel_disabled sentinel_error [of le]
    have at: "\<exists>n m p t'. attempt ext n m p = Inr t' \<and> \<not> startswith t' ''[Gemini'' \<and> strip t = strip t'"
      by auto
    from False r have "\<exists>env' a' sess' w'.
            summary_handle_envelope cfg ext name env sess w = Inr (env', a', sess', w')
          \<and> content env' = dict_set (content env) ''display_summary'' (PStr (strip t))"
      by (simp add: summary_handle_envelope_def summarize_for_display_def inc Let_def add_trace_def)
    with nm at have "\<exists>env' a' sess' w'.
            summary_handle_envelope cfg ext name env sess w = Inr (env', a', sess', w')
          \<and> content env' = dict_set (content env) ''display_summary'' (PStr (strip t))
          \<and> (length (strip t) \<le> 60
              \<or> (\<exists>n m p t'. attempt ext n m p = Inr t' \<and> \<not> startswith t' ''[Gemini'' \<and> strip t = strip t'))
          \<and> (backend_mode every_call_raises cfg ext w \<longrightarrow> length (strip t) \<le> 60)"
      by blast
    then show ?thesis by blast
  qed
qed

subsection \<open>The fallback guarantee\<close>

text \<open>
  Claim C1 says that the display summary has at most 60 characters in every failure
  mode, the backend returning malformed text among them, and that no exception leaves
  an agent, for every incident. A backend that answers every request with the same
  prose of 71 characters, which is not JSON, leaves that prose as the display summary.
  With the backend disabled and every unit available, an incident whose type is the
  number 5 makes the planner's scoring raise \<open>AttributeError\<close>, which leaves the
  Dispatch agent. With a window of \<open>10^400\<close> seconds and a backend on which every
  request raises with a rate-limit message, \<open>OverflowError\<close> leaves the Dispatch agent.
\<close>

theorem total_fallback_counterexample:
  "answers_malformed ext_prose
   \<and> (case run_agents cfg_on ext_prose [get_dispatch_agent, get_resource_agent, get_summary_agent]
             (seed_envelope test_incident) None world0 of
        Inr (env', r) \<Rightarrow>
          map_of (content env') ''display_summary'' = Some (PStr long_prose) \<and> length long_prose > 60
      | Inl e \<Rightarrow> False)
   \<and> \<not> configured cfg_off
   \<and> (case run_agents cfg_off ext_down [get_dispatch_agent, get_resource_agent, get_summary_agent]
             (seed_envelope number_incident) None world0 of
        Inr r \<Rightarrow> False
      | Inl e \<Rightarrow> e = AttributeError)
   \<and> every_call_raises ext_throttled
   \<and> (case run_agents cfg_huge_window ext_throttled [get_dispatch_agent, get_resource_agent, get_summary_agent]
             (seed_envelope test_incident) None world0 of
        Inr r \<Rightarrow> False
      | Inl e \<Rightarrow> e = OverflowError)"
proof -
  have "answers_malformed ext_prose"
    by (simp add: answers_malformed_def not_json_object_def ext_prose_def ext_with_def)
  moreover have "(case run_agents cfg_on ext_prose [get_dispatch_agent, get_resource_agent, get_summary_agent]
             (seed_envelope test_incident) None world0 of
        Inr (env', r) \<Rightarrow>
          map_of (content env') ''display_summary'' = Some (PStr long_prose) \<and> length long_prose > 60
      | Inl e \<Rightarrow> False)"
    by code_simp
  moreover have "\<not> configured cfg_off" by code_simp
  moreover have "(case run_agents cfg_off ext_down [get_dispatch_agent, get_resource_agent, get_summary_agent]
             (seed_envelope number_incident) None world0 of
        Inr r \<Rightarrow> False
      | Inl e \<Rightarrow> e = AttributeError)"
    by code_simp
  moreover have "every_call_raises ext_throttled"
    by (simp add: every_call_raises_def attempt_def ext_throttled_def ext_with_def)
  moreover have "(case run_agents cfg_huge_window ext_throttled [get_dispatch_agent, get_resource_agent, get_summary_agent]
             (seed_envelope test_incident) None world0 of
        Inr r \<Rightarrow> False
      | Inl e \<Rightarrow> e = OverflowError)"
    by code_simp
  ultimately show ?thesis by blast
qed

text \<open>
  The amended claim below takes malformed text to be text that is not a JSON object.
  A JSON object whose summary is true and not a string is outside it: the test
  \<open>plan["summary"].startswith\<close> then raises, and the exception leaves the Dispatch agent.
\<close>

lemma dispatch_raises_on_number_summary:
  "(case plan_dispatch cfg_on ext_json_number (PDict test_incident) world0 of
      Inl e \<Rightarrow> e = AttributeError | Inr r \<Rightarrow> False)"
  by code_simp

text \<open>
  Claim C1, amended. Take an incident whose type and urgency are each missing, false or
  a string, or any incident when no unit is available; an envelope that holds the
  incident under the key \<open>incident\<close>; a status map that knows every unit of the
  registry; and a backoff window within the range of floats, or any window when the
  backend is disabled. In every failure mode of the backend (disabled: no key, the
  feature off or the clock never reaching the backoff time; or every request raising or
  answering with a text that is not a JSON object), running the Dispatch, Resource and
  Summary agents in order returns, with no exception, an envelope with a non-empty
  summary, a non-empty recommendation, a list of resources (possibly empty), a non-empty
  resource summary and a display summary. The display summary has at most 60
  characters, or it is the text that a model returned, stripped, of whatever length, and
  that text does not begin with \<open>[Gemini\<close>; it has at most 60 characters when the
  backend is disabled or every request raises.
\<close>

theorem total_fallback:
  "map_of (content env) ''incident'' = Some (PDict inc)
   \<and> (scorable inc \<or> no_unit_available (unit_status w))
   \<and> registry_known (unit_status w) \<and> json_rejects_sentinels ext
   \<and> (window_in_range cfg ext \<or> backend_disabled cfg ext w)
   \<and> backend_mode answers_malformed cfg ext w \<longrightarrow>
   (\<exists>env' as' sess' w' s r ids rs d.
      run_agents cfg ext [get_dispatch_agent, get_resource_agent, get_summary_agent] env sess w
        = Inr (env', as', sess', w')
      \<and> map_of (content env') ''summary'' = Some (PStr s) \<and> s \<noteq> []
      \<and> map_of (content env') ''recommendation'' = Some (PStr r) \<and> r \<noteq> []
      \<and> map_of (content env') ''resources'' = Some (PList (map PStr ids))
      \<and> map_of (content env') ''resource_summary'' = Some (PStr rs) \<and> rs \<noteq> []
      \<and> map_of (content env') ''display_summary'' = Some (PStr d)
      \<and> (length d \<le> 60
          \<or> (\<exists>n m p t. attempt ext n m p = Inr t \<and> \<not> startswith t ''[Gemini'' \<and> d = strip t))
      \<and> (backend_mode every_call_raises cfg ext w \<longrightarrow> length d \<le> 60))"
proof
  assume a: "map_of (content env) ''incident'' = Some (PDict inc)
   \<and> (scorable inc \<or> no_unit_available (unit_status w))
   \<and> registry_known (unit_status w) \<and> json_rejects_sentinels ext
   \<and> (window_in_range cfg ext \<or> backend_disabled cfg ext w)
   \<and> backend_mode answers_malformed cfg ext w"
  then have i: "map_of (content env) ''incident'' = Some (PDict inc)"
    and sv: "scorable inc \<or> no_unit_available (unit_status w)"
    and rk: "registry_known (unit_status w)" and j: "json_rejects_sentinels ext"
    and wr: "window_in_range cfg ext \<or> backend_disabled cfg ext w"
    and m: "backend_mode answers_malformed cfg ext w"
    by simp_all
  from dispatch_failure_mode [OF i sv rk j wr m, of "''ResQ-Agent''" "[]" sess]
  obtain env1 a1 sess1 w1 s r where
    d: "dispatch_handle_envelope cfg ext ''ResQ-Agent'' [] env sess w = Inr (env1, a1, sess1, w1)" and
    c1: "content env1 = dict_set (dict_set (dict_set (content env) ''incident'' (PDict inc))
                                ''summary'' (PStr s)) ''recommendation'' (PStr r)" and
    ne1: "s \<noteq> []" "r \<noteq> []" and us1: "unit_status w1 = unit_status w" and
    md1: "\<forall>P. backend_mode P cfg ext w \<longrightarrow> backend_mode P cfg ext w1"
    by blast
  have i1: "map_of (content env1) ''incident'' = Some (PDict inc)"
    by (simp add: c1 map_of_dict_set)
  from rk us1 have rk1: "registry_known (unit_status w1)" by simp
  from sv us1 have sv1: "scorable inc \<or> no_unit_available (unit_status w1)" by simp
  from md1 m have m1: "backend_mode answers_malformed cfg ext w1" by blast
  from md1 wr have wr1: "window_in_range cfg ext \<or> backend_disabled cfg ext w1"
    unfolding backend_disabled_def by blast
  from resource_failure_mode [OF i1 sv1 rk1 j wr1 m1, of "''Resource-Agent''" "[]" sess1]
  obtain env2 a2 sess2 w2 ids rs where
    e: "resource_handle_envelope cfg ext ''Resource-Agent'' [] env1 sess1 w1 = Inr (env2, a2, sess2, w2)" and
    c2: "content env2 = dict_set (dict_set (content env1) ''resources'' (PList (map PStr ids)))
                                ''resource_summary'' (PStr rs)" and
    ne2: "rs \<noteq> []" and
    md2: "\<forall>P. backend_mode P cfg ext w1 \<longrightarrow> backend_mode P cfg ext w2"
    by blast
  have i2: "map_of (content env2) ''incident'' = Some (PDict inc)"
    by (simp add: c2 map_of_dict_set i1)
  from md2 wr1 have wr2: "window_in_range cfg ext \<or> backend_disabled cfg ext w2"
    unfolding backend_disabled_def by blast
  from summary_always [OF i2 wr2, of "''Summary-Agent''" sess2]
  obtain env3 a3 sess3 w3 dsp where
    f: "summary_handle_envelope cfg ext ''Summary-Agent'' env2 sess2 w2 = Inr (env3, a3, sess3, w3)" and
    c3: "content env3 = dict_set (content env2) ''display_summary'' (PStr dsp)" and
    dd: "length dsp \<le> 60
          \<or> (\<exists>n m p t. attempt ext n m p = Inr t \<and> \<not> startswith t ''[Gemini'' \<and> dsp = strip t)" and
    l: "backend_mode every_call_raises cfg ext w2 \<longrightarrow> length dsp \<le> 60"
    by blast
  from md1 md2 l have l': "backend_mode every_call_raises cfg ext w \<longrightarrow> length dsp \<le> 60" by blast
  have run: "run_agents cfg ext [get_dispatch_agent, get_resource_agent, get_summary_agent] env sess w
        = Inr (env3, [a1, a2, a3], sess3, w3)"
    by (simp add: get_dispatch_agent_def get_resource_agent_def get_summary_agent_def d e f)
  have "map_of (content env3) ''summary'' = Some (PStr s)"
    and "map_of (content env3) ''recommendation'' = Some (PStr r)"
    and "map_of (content env3) ''resources'' = Some (PList (map PStr ids))"
    and "map_of (content env3) ''resource_summary'' = Some (PStr rs)"
    and "map_of (content env3) ''display_summary'' = Some (PStr dsp)"
    by (simp_all add: c1 c2 c3 map_of_dict_set)
  with run ne1 ne2 dd l'
  show "\<exists>env' as' sess' w' s r ids rs d.
      run_agents cfg ext [get_dispatch_agent, get_resource_agent, get_summary_agent] env sess w
        = Inr (env', as', sess', w')
      \<and> map_of (content env') ''summary'' = Some (PStr s) \<and> s \<noteq> []
      \<and> map_of (content env') ''recommendation'' = Some (PStr r) \<and> r \<noteq> []
      \<and> map_of (content env') ''resources'' = Some (PList (map PStr ids))
      \<and> map_of (content env') ''resource_summary'' = Some (PStr rs) \<and> rs \<noteq> []
      \<and> map_of (content env') ''display_summary'' = Some (PStr d)
      \<and> (length d \<le> 60
          \<or> (\<exists>n m p t. attempt ext n m p = Inr t \<and> \<not> startswith t ''[Gemini'' \<and> d = strip t))
      \<and> (backend_mode every_call_raises cfg ext w \<longrightarrow> length d \<le> 60)"
    by blast
qed

theorem total_fallback_witness:
  "map_of (content (seed_envelope test_incident)) ''incident'' = Some (PDict test_incident)
   \<and> scorable test_incident \<and> registry_known (unit_status world0)
   \<and> json_rejects_sentinels ext_throttled
   \<and> window_in_range cfg_on ext_throttled
   \<and> backend_mode answers_malformed cfg_on ext_throttled world0
   \<and> backend_mode every_call_raises cfg_on ext_throttled world0
   \<and> (\<exists>env' rest d.
        run_agents cfg_on ext_throttled [get_dispatch_agent, get_resource_agent, get_summary_agent]
          (seed_envelope test_incident) None world0 = Inr (env', rest)
        \<and> map_of (content env') ''summary'' = Some (PStr ''Fire at Sector 7 - urgency CRITICAL.'')
        \<and> map_of (content env') ''recommendation'' = Some (PStr ''Dispatch Fire-1 to Sector 7.'')
        \<and> map_of (content env') ''resources'' = Some (PList [PStr ''Fire-1'', PStr ''Fire-2''])
        \<and> map_of (content env') ''display_summary'' = Some (PStr d) \<and> length d \<le> 60
        \<and> d = ''CRITICAL Fire Sector 7: Dispatch Fire-1 to Sector 7.'')"
proof -
  let ?run = "run_agents cfg_on ext_throttled [get_dispatch_agent, get_resource_agent, get_summary_agent]
          (seed_envelope test_incident) None world0"
  have i: "map_of (content (seed_envelope test_incident)) ''incident'' = Some (PDict test_incident)"
    by (simp add: seed_envelope_def MessageEnvelope_def)
  have sv: "scorable test_incident" by code_simp
  have s45: "GEMINI_BACKOFF_SECONDS cfg_on = 45" by code_simp
  have wr: "window_in_range cfg_on ext_throttled"
    by (simp add: window_in_range_def s45 ext_throttled_def ext_with_def)
  have rk: "registry_known (unit_status world0)" by code_simp
  have j: "json_rejects_sentinels ext_throttled"
    by (simp add: json_rejects_sentinels_def ext_throttled_def ext_with_def)
  have er: "every_call_raises ext_throttled"
    by (simp add: every_call_raises_def attempt_def ext_throttled_def ext_with_def)
  then have m2: "backend_mode every_call_raises cfg_on ext_throttled world0"
    by (simp add: backend_mode_def)
  then have m1: "backend_mode answers_malformed cfg_on ext_throttled world0"
    by (rule raises_is_malformed)
  from total_fallback [of "seed_envelope test_incident" test_incident world0 ext_throttled cfg_on None]
    i sv rk j wr m1 m2
  obtain env' as' sess' w' d where
    run: "?run = Inr (env', as', sess', w')" and
    ds: "map_of (content env') ''display_summary'' = Some (PStr d)" and
    len: "length d \<le> 60"
    by blast
  have v: "map_sum id (\<lambda>r. map (map_of (content (fst r)))
                [''summary'', ''recommendation'', ''resources'', ''display_summary'']) ?run
           = Inr [Some (PStr ''Fire at Sector 7 - urgency CRITICAL.''),
                  Some (PStr ''Dispatch Fire-1 to Sector 7.''),
                  Some (PList [PStr ''Fire-1'', PStr ''Fire-2'']),
                  Some (PStr ''CRITICAL Fire Sector 7: Dispatch Fire-1 to Sector 7.'')]"
    by code_simp
  from v run ds have "map_of (content env') ''summary'' = Some (PStr ''Fire at Sector 7 - urgency CRITICAL.'')"
    and "map_of (content env') ''recommendation'' = Some (PStr ''Dispatch Fire-1 to Sector 7.'')"
    and "map_of (content env') ''resources'' = Some (PList [PStr ''Fire-1'', PStr ''Fire-2''])"
    and "d = ''CRITICAL Fire Sector 7: Dispatch Fire-1 to Sector 7.''"
    by simp_all
  with run ds len i sv rk j wr m1 m2 show ?thesis by blast
qed

subsection \<open>When the dispatch agent falls back\<close>

text \<open>
  Claim C4 says that the planner's result is kept whenever the response does not parse.
  A backend that answers with prose, which \<open>json.loads\<close> rejects, has that prose kept as
  the summary and as the recommendation; the planner's summary is another text.
\<close>

theorem dispatch_fallback_counterexample:
  "map_sum id fst (run_gemini cfg_on ext_prose (dispatch_prompt ext_prose (PDict test_incident))
          (DISPATCH_MODEL_CHAIN cfg_on) world0) = Inr long_prose
   \<and> json_loads ext_prose long_prose = None
   \<and> (case plan_dispatch cfg_on ext_prose (PDict test_incident) world0 of
        Inr (p, w') \<Rightarrow> p = (PStr long_prose, PStr long_prose) | Inl e \<Rightarrow> False)
   \<and> (case plan_fallback ext_prose (PDict test_incident) world0 of
        Inr (p, w') \<Rightarrow> summary p = ''Fire at Sector 7 - urgency CRITICAL.'' \<and> summary p \<noteq> long_prose
      | Inl e \<Rightarrow> False)"
  by code_simp

text \<open>
  The same for a response that parses to a non-empty summary and an empty
  recommendation: the empty recommendation is kept.
\<close>

lemma dispatch_keeps_empty_recommendation:
  "(case plan_dispatch cfg_on ext_json (PDict test_incident) world0 of
      Inr (p, w') \<Rightarrow> p = (PStr ''Fire reported'', PStr []) | Inl e \<Rightarrow> False)"
  by code_simp

text \<open>
  Claim C4, amended. For every incident, let the summary the agent holds after parsing
  be the parsed summary field, or the raw response when the response is not a JSON
  object. Whenever this summary is empty or begins with \<open>[Gemini\<close>, the Dispatch agent
  invokes the planner and keeps the planner's summary and recommendation. A response
  that is not a JSON object, is not empty and does not begin with \<open>[Gemini\<close> is kept as
  the summary and as the recommendation. What the agent keeps is what it writes into the
  envelope under \<open>summary\<close> and \<open>recommendation\<close>.
\<close>

theorem dispatch_fallback_on_summary:
  "run_gemini cfg ext (dispatch_prompt ext incident) (DISPATCH_MODEL_CHAIN cfg) w = Inr (resp, le, w1) \<longrightarrow>
     (not_json_object ext resp \<longrightarrow> parse_plan ext resp = (PStr resp, PStr resp))
   \<and> ((\<not> truthy (fst (parse_plan ext resp))
         \<or> (\<exists>t. fst (parse_plan ext resp) = PStr t \<and> startswith t ''[Gemini''))
        \<and> plan_fallback ext incident w1 = Inr (p, w2) \<longrightarrow>
          plan_dispatch cfg ext incident w = Inr ((PStr (summary p), PStr (recommendation p)), w2))
   \<and> (not_json_object ext resp \<and> resp \<noteq> [] \<and> \<not> startswith resp ''[Gemini'' \<longrightarrow>
          plan_dispatch cfg ext incident w = Inr ((PStr resp, PStr resp), w1))
   \<and> (plan_dispatch cfg ext incident w = Inr ((s, r), w3)
        \<and> dict_get_default (content env) ''incident'' (PDict (content env)) = incident \<longrightarrow>
          (\<exists>env' a' sess'.
              dispatch_handle_envelope cfg ext name k env sess w = Inr (env', a', sess', w3)
            \<and> map_of (content env') ''summary'' = Some s
            \<and> map_of (content env') ''recommendation'' = Some r))"
proof (intro impI conjI)
  assume "not_json_object ext resp"
  then show "parse_plan ext resp = (PStr resp, PStr resp)" by (rule parse_plan_malformed)
next
  assume rg: "run_gemini cfg ext (dispatch_prompt ext incident) (DISPATCH_MODEL_CHAIN cfg) w = Inr (resp, le, w1)"
    and a: "(\<not> truthy (fst (parse_plan ext resp))
         \<or> (\<exists>t. fst (parse_plan ext resp) = PStr t \<and> startswith t ''[Gemini''))
        \<and> plan_fallback ext incident w1 = Inr (p, w2)"
  then have "needs_fallback (fst (parse_plan ext resp)) = Inr True"
    by (auto simp: needs_fallback_def)
  with rg a show "plan_dispatch cfg ext incident w = Inr ((PStr (summary p), PStr (recommendation p)), w2)"
    by (simp add: plan_dispatch_def Let_def)
next
  assume rg: "run_gemini cfg ext (dispatch_prompt ext incident) (DISPATCH_MODEL_CHAIN cfg) w = Inr (resp, le, w1)"
    and a: "not_json_object ext resp \<and> resp \<noteq> [] \<and> \<not> startswith resp ''[Gemini''"
  then have "parse_plan ext resp = (PStr resp, PStr resp)" by (simp add: parse_plan_malformed)
  with rg a show "plan_dispatch cfg ext incident w = Inr ((PStr resp, PStr resp), w1)"
    by (simp add: plan_dispatch_def Let_def needs_fallback_str)
next
  assume "plan_dispatch cfg ext incident w = Inr ((s, r), w3)
        \<and> dict_get_default (content env) ''incident'' (PDict (content env)) = incident"
  then show "\<exists>env' a' sess'.
              dispatch_handle_envelope cfg ext name k env sess w = Inr (env', a', sess', w3)
            \<and> map_of (content env') ''summary'' = Some s
            \<and> map_of (content env') ''recommendation'' = Some r"
    by (simp add: dispatch_handle_envelope_def Let_def add_trace_def map_of_dict_set)
qed

theorem dispatch_fallback_on_summary_witness:
  "\<exists>resp le w1 p w2.
      run_gemini cfg_on ext_down (dispatch_prompt ext_down (PDict test_incident))
        (DISPATCH_MODEL_CHAIN cfg_on) world0 = Inr (resp, le, w1)
    \<and> resp = ''[Gemini error: connection refused]''
    \<and> fst (parse_plan ext_down resp) = PStr resp \<and> startswith resp ''[Gemini''
    \<and> plan_fallback ext_down (PDict test_incident) w1 = Inr (p, w2)
    \<and> plan_dispatch cfg_on ext_down (PDict test_incident) world0
        = Inr ((PStr (summary p), PStr (recommendation p)), w2)
    \<and> summary p = ''Fire at Sector 7 - urgency CRITICAL.''
    \<and> recommendation p = ''Dispatch Fire-1 to Sector 7.''"
proof -
  let ?inc = "PDict test_incident"
  have s45: "GEMINI_BACKOFF_SECONDS cfg_on = 45" by code_simp
  have "window_in_range cfg_on ext_down \<or> backend_disabled cfg_on ext_down world0"
    by (simp add: window_in_range_def s45 ext_down_def ext_with_def)
  from run_gemini_total [OF this] obtain resp le w1 where
    rg: "run_gemini cfg_on ext_down (dispatch_prompt ext_down ?inc) (DISPATCH_MODEL_CHAIN cfg_on) world0
           = Inr (resp, le, w1)"
    by blast
  have "map_sum id fst
          (run_gemini cfg_on ext_down (dispatch_prompt ext_down ?inc) (DISPATCH_MODEL_CHAIN cfg_on) world0)
          = Inr ''[Gemini error: connection refused]''"
    by code_simp
  with rg have resp: "resp = ''[Gemini error: connection refused]''" by simp
  have pp: "fst (parse_plan ext_down resp) = PStr resp"
    by (simp add: parse_plan_def ext_down_def ext_with_def)
  have sw: "startswith resp ''[Gemini''" by (simp add: resp startswith_def)
  have "registry_known (unit_status world0)" by code_simp
  with run_gemini_cases [OF rg] have rk: "registry_known (unit_status w1)" by simp
  have "scorable test_incident" by code_simp
  then have sv: "scorable test_incident \<or> no_unit_available (unit_status w1)" ..
  from plan_fallback_total [OF sv rk, of ext_down] obtain p w2 where
    pf: "plan_fallback ext_down ?inc w1 = Inr (p, w2)" by blast
  from dispatch_fallback_on_summary [of cfg_on ext_down ?inc world0 resp le w1 p w2] rg pp sw pf
  have pd: "plan_dispatch cfg_on ext_down ?inc world0 = Inr ((PStr (summary p), PStr (recommendation p)), w2)"
    by blast
  have "map_sum id fst (plan_dispatch cfg_on ext_down ?inc world0)
          = Inr (PStr ''Fire at Sector 7 - urgency CRITICAL.'', PStr ''Dispatch Fire-1 to Sector 7.'')"
    by code_simp
  with pd have "summary p = ''Fire at Sector 7 - urgency CRITICAL.''"
    and "recommendation p = ''Dispatch Fire-1 to Sector 7.''"
    by simp_all
  with rg resp pp sw pf pd show ?thesis by blast
qed

subsection \<open>The trace\<close>

lemma handle_envelope_trace:
  assumes "handle_envelope cfg ext a env sess w = Inr (env', a', sess', w')"
  shows "(\<exists>m. trace env' = trace env @ [\<lparr>agent = agent_name a, message = m\<rparr>])
         \<and> sender env' = sender env \<and> receiver env' = receiver env \<and> ctxt env' = ctxt env
         \<and> agent_name a' = agent_name a"
proof (cases a)
  case (DispatchAgent n k)
  with assms show ?thesis
    by (auto simp: dispatch_handle_envelope_def Let_def add_trace_def split: sum.splits prod.splits)
next
  case (ResourceAgent n k)
  with assms show ?thesis
    by (auto simp: resource_handle_envelope_def Let_def add_trace_def
             split: sum.splits prod.splits if_splits)
next
  case (SummaryAgent n)
  with assms show ?thesis
    by (auto simp: summary_handle_envelope_def Let_def add_trace_def split: sum.splits prod.splits)
next
  case (DecisionAgent n h)
  with assms show ?thesis
    by (auto simp: decision_handle_envelope_def Let_def add_trace_def)
qed

lemma orchestrate_trace:
  "orchestrate cfg ext as env sess w = Inr (env', as', sess', w') \<Longrightarrow>
     map agent (trace env') = map agent (trace env) @ map agent_name as"
proof (induction as arbitrary: env sess w env' as' sess' w')
  case Nil
  then show ?case by simp
next
  case (Cons a as)
  let ?env = "env\<lparr>sender := receiver env, receiver := Some (agent_name a)\<rparr>"
  from Cons.prems obtain env1 a1 sess1 w1 as2 where
    h: "handle_envelope cfg ext a ?env sess w = Inr (env1, a1, sess1, w1)" and
    o: "orchestrate cfg ext as env1 sess1 w1 = Inr (env', as2, sess', w')"
    by (auto split: sum.splits)
  from handle_envelope_trace [OF h] obtain m where
    "trace env1 = trace ?env @ [\<lparr>agent = agent_name a, message = m\<rparr>]" by blast
  with Cons.IH [OF o] show ?case by simp
qed

lemma decision_always:
  "\<exists>res. decision_handle_envelope ext n h env sess w = Inr res"
  by (simp add: decision_handle_envelope_def Let_def)

lemma orchestrate_failure_mode:
  assumes i: "map_of (content env) ''incident'' = Some (PDict inc)"
    and sv: "scorable inc \<or> no_unit_available (unit_status w)"
    and rk: "registry_known (unit_status w)"
    and j: "json_rejects_sentinels ext"
    and wr: "window_in_range cfg ext \<or> backend_disabled cfg ext w"
    and m: "backend_mode answers_malformed cfg ext w"
  shows "\<exists>res. orchestrate cfg ext (get_a2a_orchestrator h) env sess w = Inr res"
proof -
  let ?e0 = "env\<lparr>sender := receiver env, receiver := Some ''ResQ-Agent''\<rparr>"
  have i0: "map_of (content ?e0) ''incident'' = Some (PDict inc)" using i by simp
  from dispatch_failure_mode [OF i0 sv rk j wr m, of "''ResQ-Agent''" "[]" sess]
  obtain env1 a1 sess1 w1 s r where
    d: "dispatch_handle_envelope cfg ext ''ResQ-Agent'' [] ?e0 sess w = Inr (env1, a1, sess1, w1)" and
    c1: "content env1 = dict_set (dict_set (dict_set (content ?e0) ''incident'' (PDict inc))
                                ''summary'' (PStr s)) ''recommendation'' (PStr r)" and
    us1: "unit_status w1 = unit_status w" and
    md1: "\<forall>P. backend_mode P cfg ext w \<longrightarrow> backend_mode P cfg ext w1"
    by blast
  let ?e1 = "env1\<lparr>sender := receiver env1, receiver := Some ''Resource-Agent''\<rparr>"
  have i1: "map_of (content ?e1) ''incident'' = Some (PDict inc)"
    by (simp add: c1 map_of_dict_set)
  from rk us1 have rk1: "registry_known (unit_status w1)" by simp
  from sv us1 have sv1: "scorable inc \<or> no_unit_available (unit_status w1)" by simp
  from md1 m have m1: "backend_mode answers_malformed cfg ext w1" by blast
  from md1 wr have wr1: "window_in_range cfg ext \<or> backend_disabled cfg ext w1"
    unfolding backend_disabled_def by blast
  from resource_failure_mode [OF i1 sv1 rk1 j wr1 m1, of "''Resource-Agent''" "[]" sess1]
  obtain env2 a2 sess2 w2 ids rs where
    e: "resource_handle_envelope cfg ext ''Resource-Agent'' [] ?e1 sess1 w1 = Inr (env2, a2, sess2, w2)" and
    c2: "content env2 = dict_set (dict_set (content ?e1) ''resources'' (PList (map PStr ids)))
                                ''resource_summary'' (PStr rs)" and
    md2: "\<forall>P. backend_mode P cfg ext w1 \<longrightarrow> backend_mode P cfg ext w2"
    by blast
  from md2 wr1 have wr2: "window_in_range cfg ext \<or> backend_disabled cfg ext w2"
    unfolding backend_disabled_def by blast
  let ?e2 = "env2\<lparr>sender := receiver env2, receiver := Some ''Summary-Agent''\<rparr>"
  have i2: "map_of (content ?e2) ''incident'' = Some (PDict inc)"
    using i1 by (simp add: c2 map_of_dict_set)
  from summary_always [OF i2 wr2, of "''Summary-Agent''" sess2]
  obtain env3 a3 sess3 w3 where
    f: "summary_handle_envelope cfg ext ''Summary-Agent'' ?e2 sess2 w2 = Inr (env3, a3, sess3, w3)"
    by blast
  let ?e3 = "env3\<lparr>sender := receiver env3, receiver := Some ''Decision-Agent''\<rparr>"
  from decision_always [of ext "''Decision-Agent''" h ?e3 sess3 w3] obtain res where
    g: "decision_handle_envelope ext ''Decision-Agent'' h ?e3 sess3 w3 = Inr res" by blast
  obtain env4 a4 sess4 w4 where res: "res = (env4, a4, sess4, w4)" by (cases res) auto
  show ?thesis
    by (simp add: get_a2a_orchestrator_def get_dispatch_agent_def get_resource_agent_def
        get_summary_agent_def get_decision_agent_def d e f g res)
qed

text \<open>
  Claim C8. Whenever \<open>handle_envelope\<close> of an agent returns, the envelope it returns
  is the one it was given with exactly one trace entry appended, which names the agent;
  sender, receiver and context are as they were. So when the standard pipeline of four
  agents returns on an envelope with an empty trace, the trace has exactly four entries,
  naming the dispatch, resource, summary and decision agents in this order. The pipeline
  does return on an envelope that holds an incident with string values, in every failure
  mode of the backend, when the backoff window is within the range of floats.
\<close>

theorem trace_complete:
  "(handle_envelope cfg ext a env sess w = Inr (env1, a1, sess1, w1) \<longrightarrow>
      (\<exists>m. trace env1 = trace env @ [\<lparr>agent = agent_name a, message = m\<rparr>])
      \<and> sender env1 = sender env \<and> receiver env1 = receiver env \<and> ctxt env1 = ctxt env)
   \<and> (trace env = [] \<and> orchestrate cfg ext (get_a2a_orchestrator h) env sess w = Inr (env2, as2, sess2, w2) \<longrightarrow>
      map agent (trace env2) = [''ResQ-Agent'', ''Resource-Agent'', ''Summary-Agent'', ''Decision-Agent'']
      \<and> length (trace env2) = 4)
   \<and> (map_of (content env) ''incident'' = Some (PDict inc) \<and> str_valued inc
        \<and> registry_known (unit_status w) \<and> json_rejects_sentinels ext
        \<and> window_in_range cfg ext \<and> backend_mode answers_malformed cfg ext w \<longrightarrow>
      (\<exists>res. orchestrate cfg ext (get_a2a_orchestrator h) env sess w = Inr res))"
proof (intro conjI impI)
  assume "handle_envelope cfg ext a env sess w = Inr (env1, a1, sess1, w1)"
  from handle_envelope_trace [OF this]
  show "\<exists>m. trace env1 = trace env @ [\<lparr>agent = agent_name a, message = m\<rparr>]"
    and "sender env1 = sender env" and "receiver env1 = receiver env" and "ctxt env1 = ctxt env"
    by blast+
next
  assume a: "trace env = [] \<and> orchestrate cfg ext (get_a2a_orchestrator h) env sess w = Inr (env2, as2, sess2, w2)"
  then have "map agent (trace env2) = map agent (trace env) @ map agent_name (get_a2a_orchestrator h)"
    using orchestrate_trace [of cfg ext "get_a2a_orchestrator h" env sess w env2 as2 sess2 w2] by simp
  with a have n: "map agent (trace env2) = [''ResQ-Agent'', ''Resource-Agent'', ''Summary-Agent'', ''Decision-Agent'']"
    by (simp add: get_a2a_orchestrator_def get_dispatch_agent_def get_resource_agent_def
        get_summary_agent_def get_decision_agent_def)
  then show "map agent (trace env2) = [''ResQ-Agent'', ''Resource-Agent'', ''Summary-Agent'', ''Decision-Agent'']" .
  from n have "length (map agent (trace env2)) = 4" by simp
  then show "length (trace env2) = 4" by simp
next
  assume "map_of (content env) ''incident'' = Some (PDict inc) \<and> str_valued inc
        \<and> registry_known (unit_status w) \<and> json_rejects_sentinels ext
        \<and> window_in_range cfg ext \<and> backend_mode answers_malformed cfg ext w"
  then show "\<exists>res. orchestrate cfg ext (get_a2a_orchestrator h) env sess w = Inr res"
    using orchestrate_failure_mode [of env inc w ext cfg h sess] str_valued_scorable [of inc] by blast
qed

theorem trace_complete_witness:
  "trace (seed_envelope test_incident) = []
   \<and> (\<exists>env' rest.
        orchestrate cfg_on ext_throttled (get_a2a_orchestrator []) (seed_envelope test_incident) None world0
          = Inr (env', rest)
        \<and> map agent (trace env') = [''ResQ-Agent'', ''Resource-Agent'', ''Summary-Agent'', ''Decision-Agent'']
        \<and> length (trace env') = 4
        \<and> sender env' = Some ''Summary-Agent'' \<and> receiver env' = Some ''Decision-Agent'')"
proof -
  let ?run = "orchestrate cfg_on ext_throttled (get_a2a_orchestrator []) (seed_envelope test_incident) None world0"
  have t0: "trace (seed_envelope test_incident) = []"
    by (simp add: seed_envelope_def MessageEnvelope_def)
  have i: "map_of (content (seed_envelope test_incident)) ''incident'' = Some (PDict test_incident)"
    by (simp add: seed_envelope_def MessageEnvelope_def)
  have sv: "str_valued test_incident" by code_simp
  have rk: "registry_known (unit_status world0)" by code_simp
  have j: "json_rejects_sentinels ext_throttled"
    by (simp add: json_rejects_sentinels_def ext_throttled_def ext_with_def)
  have s45: "GEMINI_BACKOFF_SECONDS cfg_on = 45" by code_simp
  have wr: "window_in_range cfg_on ext_throttled"
    by (simp add: window_in_range_def s45 ext_throttled_def ext_with_def)
  have "every_call_raises ext_throttled"
    by (simp add: every_call_raises_def attempt_def ext_throttled_def ext_with_def)
  then have "backend_mode every_call_raises cfg_on ext_throttled world0"
    by (simp add: backend_mode_def)
  then have m: "backend_mode answers_malformed cfg_on ext_throttled world0"
    by (rule raises_is_malformed)
  note t = trace_complete [of cfg_on ext_throttled _ "seed_envelope test_incident" None world0 _ _ _ _ "[]"
      _ _ _ _ test_incident]
  from t i sv rk j wr m obtain res where "?run = Inr res" by blast
  then obtain env' as' sess' w' where run: "?run = Inr (env', as', sess', w')"
    by (cases res) auto
  from t [of _ _ _ _ _ env' as' sess' w'] t0 run
  have n: "map agent (trace env') = [''ResQ-Agent'', ''Resource-Agent'', ''Summary-Agent'', ''Decision-Agent'']"
    and l: "length (trace env') = 4"
    by blast+
  have "map_sum id (\<lambda>r. (sender (fst r), receiver (fst r))) ?run
          = Inr (Some ''Summary-Agent'', Some ''Decision-Agent'')"
    by code_simp
  with run have s: "sender env' = Some ''Summary-Agent''" and r: "receiver env' = Some ''Decision-Agent''"
    by simp_all
  have "\<exists>env' rest. ?run = Inr (env', rest)
        \<and> map agent (trace env') = [''ResQ-Agent'', ''Resource-Agent'', ''Summary-Agent'', ''Decision-Agent'']
        \<and> length (trace env') = 4
        \<and> sender env' = Some ''Summary-Agent'' \<and> receiver env' = Some ''Decision-Agent''"
    using run n l s r by (intro exI [of _ env'] exI [of _ "(as', sess', w')"]) simp
  with t0 show ?thesis by simp
qed

end
